theory Spec2Isabelle
  imports Main "HOL-Library.Sublist"
begin

section \<open>JavaScript values, strings and errors\<close>

text \<open>
  The values that reach the modelled code: configuration objects, predicates, operands and
  options. A number is an integer here (the code under study only prints numbers and tests
  them for zero); an object is the list of its own enumerable properties in the order of
  \<^verbatim>\<open>Object.entries\<close>, with distinct names that are not array indices, and a property
  read takes the entry of that name.
\<close>

datatype jsval =
    Undefined
  | Null
  | Bool bool
  | Num int
  | Str string
  | Arr "jsval list"
  | Obj "(string \<times> jsval) list"

text \<open>What \<^verbatim>\<open>throw\<close> raises: the class of the error and its \<^verbatim>\<open>message\<close>.\<close>

datatype exn =
    Error string
  | TypeError string
  | DatabaseError string

fun message :: "exn \<Rightarrow> string" where
  "message (Error m) = m"
| "message (TypeError m) = m"
| "message (DatabaseError m) = m"

text \<open>\<^verbatim>\<open>!v\<close> is true for the falsy values.\<close>

fun falsy :: "jsval \<Rightarrow> bool" where
  "falsy Undefined = True"
| "falsy Null = True"
| "falsy (Bool b) = (\<not> b)"
| "falsy (Num n) = (n = 0)"
| "falsy (Str s) = (s = [])"
| "falsy (Arr xs) = False"
| "falsy (Obj es) = False"

definition truthy :: "jsval \<Rightarrow> bool" where
  "truthy v = (\<not> falsy v)"

text \<open>\<^verbatim>\<open>typeof v === 'object'\<close>: objects, arrays and null.\<close>

fun typeof_object :: "jsval \<Rightarrow> bool" where
  "typeof_object Null = True"
| "typeof_object (Arr xs) = True"
| "typeof_object (Obj es) = True"
| "typeof_object v = False"

text \<open>\<^verbatim>\<open>a || b\<close>\<close>

definition js_or :: "jsval \<Rightarrow> jsval \<Rightarrow> jsval" where
  "js_or a b = (if truthy a then a else b)"

text \<open>
  \<^verbatim>\<open>obj[name]\<close> for a name that is neither an array index nor a built-in property:
  the own property, or undefined.
\<close>

fun get_prop :: "jsval \<Rightarrow> string \<Rightarrow> jsval" where
  "get_prop (Obj es) k = (case map_of es k of Some v \<Rightarrow> v | None \<Rightarrow> Undefined)"
| "get_prop v k = Undefined"

text \<open>Decimal digits of a natural number, and the string of an integer.\<close>

definition digit_char :: "nat \<Rightarrow> char" where
  "digit_char d = ''0123456789'' ! d"

fun show_nat :: "nat \<Rightarrow> string" where
  "show_nat n = (if n < 10 then [digit_char n] else show_nat (n div 10) @ [digit_char (n mod 10)])"

declare show_nat.simps [simp del]

definition show_int :: "int \<Rightarrow> string" where
  "show_int i = (if i < 0 then CHR ''-'' # show_nat (nat (- i)) else show_nat (nat i))"

text \<open>\<^verbatim>\<open>Array.prototype.join\<close> on strings.\<close>

fun join :: "string \<Rightarrow> string list \<Rightarrow> string" where
  "join sep [] = []"
| "join sep [x] = x"
| "join sep (x # y # ys) = x @ sep @ join sep (y # ys)"

text \<open>
  The string a template literal \<^verbatim>\<open>${v}\<close> splices in. An array is the join of its
  elements with a comma, null and undefined elements giving the empty string.
\<close>

fun toString :: "jsval \<Rightarrow> string"
  and elemString :: "jsval \<Rightarrow> string" where
  "toString Undefined = ''undefined''"
| "toString Null = ''null''"
| "toString (Bool b) = (if b then ''true'' else ''false'')"
| "toString (Num n) = show_int n"
| "toString (Str s) = s"
| "toString (Arr xs) = join '','' (map elemString xs)"
| "toString (Obj es) = ''[object Object]''"
| "elemString Undefined = []"
| "elemString Null = []"
| "elemString (Bool b) = toString (Bool b)"
| "elemString (Num n) = toString (Num n)"
| "elemString (Str s) = toString (Str s)"
| "elemString (Arr xs) = toString (Arr xs)"
| "elemString (Obj es) = toString (Obj es)"

text \<open>\<^verbatim>\<open>String.prototype.toLowerCase\<close> on ASCII text.\<close>

definition lower_char :: "char \<Rightarrow> char" where
  "lower_char c =
     (case map_of (zip ''ABCDEFGHIJKLMNOPQRSTUVWXYZ'' ''abcdefghijklmnopqrstuvwxyz'') c of
        Some d \<Rightarrow> d
      | None \<Rightarrow> c)"

definition toLowerCase :: "string \<Rightarrow> string" where
  "toLowerCase s = map lower_char s"

section \<open>ConfigValidator\<close>

text \<open>
  The table of required fields, per backend type. The repository has two validators:
  \<^verbatim>\<open>validators.js\<close>, which \<^verbatim>\<open>index.js\<close> requires and whose table has three
  entries, and the validator of the TypeScript build, whose table has twelve.
\<close>

definition requiredFields :: "(string \<times> string list) list" where
  "requiredFields =
    [(''postgres'', [''host'', ''port'', ''database'', ''user'', ''password'']),
     (''mongodb'', [''uri'', ''database'']),
     (''redis'', [''host'', ''port''])]"

definition requiredFields_ts :: "(string \<times> string list) list" where
  "requiredFields_ts =
    [(''postgres'', [''host'', ''port'', ''database'', ''user'', ''password'']),
     (''mongodb'', [''uri'', ''database'']),
     (''redis'', [''host'', ''port'']),
     (''cassandra'', [''contactPoints'', ''localDataCenter'', ''keyspace'']),
     (''dynamodb'', [''region'']),
     (''elasticsearch'', [''node'']),
     (''neo4j'', [''uri'', ''user'', ''password'']),
     (''influxdb'', [''url'', ''token'', ''org'', ''bucket'']),
     (''arango'', [''url'', ''database'', ''username'', ''password'']),
     (''orientdb'', [''host'', ''port'', ''username'', ''password'', ''database'']),
     (''timescale'', [''host'', ''port'', ''database'', ''user'', ''password'']),
     (''cockroachdb'', [''host'', ''port'', ''database'', ''user'', ''password''])]"

text \<open>
  The table is an object literal, so two names reach \<^verbatim>\<open>Object.prototype\<close> instead of
  an entry: the value read is truthy and not iterable, and the loop over it throws.
\<close>

definition inherited_name :: "string \<Rightarrow> bool" where
  "inherited_name k = (k = ''constructor'' \<or> k = ''__proto__'')"

text \<open>The loop over the fields: it throws at the first field whose value is falsy.\<close>

fun check_fields :: "jsval \<Rightarrow> string list \<Rightarrow> exn + unit" where
  "check_fields config [] = Inr ()"
| "check_fields config (field # fields) =
     (if falsy (get_prop config field)
      then Inl (Error (''Missing required field: '' @ field))
      else check_fields config fields)"

text \<open>\<^verbatim>\<open>ConfigValidator.validate\<close>; the two validators differ in their table only.\<close>

definition validate_with :: "(string \<times> string list) list \<Rightarrow> string \<Rightarrow> jsval \<Rightarrow> exn + unit" where
  "validate_with table type config =
     (if type = [] then Inl (Error ''Database type must be a non-empty string'')
      else if falsy config \<or> \<not> typeof_object config
        then Inl (Error ''Configuration must be an object'')
      else if inherited_name (toLowerCase type) then Inl (TypeError ''fields is not iterable'')
      else (case map_of table (toLowerCase type) of
              Some fields \<Rightarrow> check_fields config fields
            | None \<Rightarrow> Inr ()))"

definition validate :: "string \<Rightarrow> jsval \<Rightarrow> exn + unit" where
  "validate = validate_with requiredFields"

definition validate_ts :: "string \<Rightarrow> jsval \<Rightarrow> exn + unit" where
  "validate_ts = validate_with requiredFields_ts"

section \<open>DatabaseFactory\<close>

text \<open>The adapter classes the factory starts with, and classes registered later.\<close>

datatype ctor =
    ArangoAdapter
  | CassandraAdapter
  | CockroachDBAdapter
  | DynamoDBAdapter
  | ElasticsearchAdapter
  | InfluxDBAdapter
  | MongoAdapter
  | Neo4jAdapter
  | OrientDBAdapter
  | PostgresAdapter
  | RedisAdapter
  | TimescaleAdapter
  | Custom nat

text \<open>The second argument of \<^verbatim>\<open>addAdapter\<close>: a class (a function), or some other value.\<close>

datatype jsarg = Class ctor | NotAFunction jsval

text \<open>
  The registry \<^verbatim>\<open>this.adapters\<close> maps a lower-case type name to a class; it is
  modelled by its own properties (a lookup of \<^verbatim>\<open>constructor\<close> or \<^verbatim>\<open>__proto__\<close> in a
  registry without such an entry is outside the model; \<^verbatim>\<open>connect\<close> never gets that
  far, its validation throws first). Objects live in a heap, a list indexed by reference:
  \<^verbatim>\<open>new AdapterClass(config)\<close> appends an instance (its class and the config it was
  built from) and returns the new reference. Construction does no I/O and is taken to
  succeed.
\<close>

type_synonym ref = nat
type_synonym heap = "(ctor \<times> jsval) list"
type_synonym registry = "string \<rightharpoonup> ctor"

definition initial_adapters :: registry where
  "initial_adapters = map_of
    [(''arango'', ArangoAdapter),
     (''cassandra'', CassandraAdapter),
     (''cockroachdb'', CockroachDBAdapter),
     (''dynamodb'', DynamoDBAdapter),
     (''elasticsearch'', ElasticsearchAdapter),
     (''influxdb'', InfluxDBAdapter),
     (''mongodb'', MongoAdapter),
     (''neo4j'', Neo4jAdapter),
     (''orientdb'', OrientDBAdapter),
     (''postgres'', PostgresAdapter),
     (''redis'', RedisAdapter),
     (''timescale'', TimescaleAdapter)]"

definition new :: "heap \<Rightarrow> ctor \<Rightarrow> jsval \<Rightarrow> heap \<times> ref" where
  "new h c config = (h @ [(c, config)], length h)"

definition createDatabase :: "registry \<Rightarrow> heap \<Rightarrow> string \<Rightarrow> jsval \<Rightarrow> heap \<times> (exn + ref)" where
  "createDatabase adapters h type config =
     (case adapters (toLowerCase type) of
        None \<Rightarrow> (h, Inl (Error (''Unsupported database type: '' @ type)))
      | Some AdapterClass \<Rightarrow> (let (h', r) = new h AdapterClass config in (h', Inr r)))"

definition addAdapter :: "registry \<Rightarrow> string \<Rightarrow> jsarg \<Rightarrow> exn + registry" where
  "addAdapter adapters type AdapterClass =
     (if type = [] then Inl (Error ''Database type must be a non-empty string'')
      else (case AdapterClass of
              NotAFunction v \<Rightarrow> Inl (Error ''Adapter must be a class'')
            | Class c \<Rightarrow> Inr (adapters(toLowerCase type \<mapsto> c))))"

section \<open>UniversalORM\<close>

text \<open>
  The facade: the connection cache (a \<^verbatim>\<open>Map\<close>, kept in insertion order), the factory's
  registry and the heap of adapter instances.
\<close>

record orm =
  connections :: "(string \<times> ref) list"
  adapters :: registry
  heap :: heap

definition initial_orm :: orm where
  "initial_orm = \<lparr>connections = [], adapters = initial_adapters, heap = []\<rparr>"

text \<open>
  The cache key of \<^verbatim>\<open>index.js\<close>, and the one of \<^verbatim>\<open>index.ts\<close> (and of its
  compiled form).
\<close>

definition connectionKey :: "string \<Rightarrow> jsval \<Rightarrow> string" where
  "connectionKey type config = type @ ''-'' @ toString (get_prop config ''database'')"

definition connectionKey_ts :: "string \<Rightarrow> jsval \<Rightarrow> string" where
  "connectionKey_ts type config =
     type @ ''-'' @ toString (js_or (get_prop config ''database'')
                               (js_or (get_prop config ''uri'') (get_prop config ''host'')))"

text \<open>
  \<^verbatim>\<open>connect\<close>: validate, look the key up, otherwise construct and register. Whatever is
  thrown inside is rethrown as a \<^verbatim>\<open>DatabaseError\<close>. The JavaScript and the
  TypeScript facade have the same body; each has its own validator and its own key.
\<close>

definition connect_with ::
  "(string \<Rightarrow> jsval \<Rightarrow> exn + unit) \<Rightarrow> (string \<Rightarrow> jsval \<Rightarrow> string) \<Rightarrow>
   orm \<Rightarrow> string \<Rightarrow> jsval \<Rightarrow> orm \<times> (exn + ref)" where
  "connect_with validator key_of s type config =
     (case validator type config of
        Inl error \<Rightarrow> (s, Inl (DatabaseError (''Connection failed: '' @ message error)))
      | Inr u \<Rightarrow>
          (let connectionKey = key_of type config in
           case map_of (connections s) connectionKey of
             Some connection \<Rightarrow> (s, Inr connection)
           | None \<Rightarrow>
               (case createDatabase (adapters s) (heap s) type config of
                  (h', Inl error) \<Rightarrow>
                    (s, Inl (DatabaseError (''Connection failed: '' @ message error)))
                | (h', Inr connection) \<Rightarrow>
                    (s\<lparr>connections := connections s @ [(connectionKey, connection)], heap := h'\<rparr>,
                     Inr connection))))"

definition connect :: "orm \<Rightarrow> string \<Rightarrow> jsval \<Rightarrow> orm \<times> (exn + ref)" where
  "connect = connect_with validate connectionKey"

definition connect_ts :: "orm \<Rightarrow> string \<Rightarrow> jsval \<Rightarrow> orm \<times> (exn + ref)" where
  "connect_ts = connect_with validate_ts connectionKey_ts"

text \<open>
  The required fields whose value is absent or falsy, in the order of the table: what an
  error that names every missing field would have to list.
\<close>

definition missing_fields :: "jsval \<Rightarrow> string list \<Rightarrow> string list" where
  "missing_fields config required = filter (\<lambda>field. falsy (get_prop config field)) required"

subsection \<open>closeAll\<close>

text \<open>
  Every \<^verbatim>\<open>close()\<close> is an async method: the call returns a promise at once, and the
  promise settles later. The driver decides when and how; the model takes that as a
  parameter, per instance: the tick at which its promise settles, and the error it rejects
  with, if any.
\<close>

type_synonym closing = "ref \<Rightarrow> nat \<times> exn option"

text \<open>
  \<^verbatim>\<open>Promise.all\<close> rejects as soon as one of its promises rejects, with that promise's
  error: the rejection with the least tick, the earlier promise winning a tie. With no
  rejection it fulfils when the last promise has.
\<close>

fun first_rejection :: "(nat \<times> exn option) list \<Rightarrow> (nat \<times> exn) option" where
  "first_rejection [] = None"
| "first_rejection ((t, None) # ps) = first_rejection ps"
| "first_rejection ((t, Some e) # ps) =
     (case first_rejection ps of
        None \<Rightarrow> Some (t, e)
      | Some (t', e') \<Rightarrow> if t' < t then Some (t', e') else Some (t, e))"

definition promise_all :: "(nat \<times> exn option) list \<Rightarrow> nat \<times> (exn + unit)" where
  "promise_all ps =
     (case first_rejection ps of
        Some (t, e) \<Rightarrow> (t, Inl e)
      | None \<Rightarrow> (fold max (map fst ps) 0, Inr ()))"

text \<open>
  What \<^verbatim>\<open>closeAll\<close> leaves behind: the facade, the instances whose \<^verbatim>\<open>close()\<close>
  was called (in call order), the tick at which \<^verbatim>\<open>closeAll\<close> itself settles, and its
  outcome. The cache is cleared after the \<^verbatim>\<open>await\<close>, so only when nothing was thrown.
\<close>

record closed_all =
  after :: orm
  closed :: "ref list"
  settled_at :: nat
  outcome :: "exn + unit"

definition closeAll :: "closing \<Rightarrow> orm \<Rightarrow> closed_all" where
  "closeAll env s =
     (let closePromises = map (\<lambda>(key, connection). env connection) (connections s);
          invoked = map snd (connections s)
      in case promise_all closePromises of
           (t, Inl error) \<Rightarrow> \<lparr>after = s, closed = invoked, settled_at = t, outcome = Inl error\<rparr>
         | (t, Inr u) \<Rightarrow>
             \<lparr>after = s\<lparr>connections := []\<rparr>, closed = invoked, settled_at = t,
              outcome = Inr ()\<rparr>)"

text \<open>A closing behaviour given as a table; an instance not listed closes at once.\<close>

definition closing_of :: "(ref \<times> (nat \<times> exn option)) list \<Rightarrow> closing" where
  "closing_of table r = (case map_of table r of Some p \<Rightarrow> p | None \<Rightarrow> (0, None))"

section \<open>Adapters: transactions\<close>

text \<open>
  An adapter method talks to its native driver. The model records the driver calls a
  method makes, in order, next to what the method returns or throws. Whether a driver call
  fails is not the adapter's doing: each driver is a record of outcomes, one per call.
\<close>

datatype call =
    StartSession
  | StartTransaction
  | CommitTransaction
  | AbortTransaction
  | EndSession
  | PoolConnect
  | ClientQuery string
  | ClientRelease
  | ClientMulti
  | MultiExec
  | Callback

type_synonym 'a comp = "call list \<times> (exn + 'a)"

definition returns :: "'a \<Rightarrow> 'a comp" where
  "returns v = ([], Inr v)"

definition throws :: "exn \<Rightarrow> 'a comp" where
  "throws e = ([], Inl e)"

text \<open>One statement after another: the second runs only if the first did not throw.\<close>

definition and_then :: "'a comp \<Rightarrow> ('a \<Rightarrow> 'b comp) \<Rightarrow> 'b comp" where
  "and_then m f =
     (case m of
        (tr, Inl e) \<Rightarrow> (tr, Inl e)
      | (tr, Inr v) \<Rightarrow> (case f v of (tr', r) \<Rightarrow> (tr @ tr', r)))"

text \<open>\<^verbatim>\<open>try { m } catch (error) { h error }\<close>\<close>

definition try_catch :: "'a comp \<Rightarrow> (exn \<Rightarrow> 'a comp) \<Rightarrow> 'a comp" where
  "try_catch m h =
     (case m of
        (tr, Inl e) \<Rightarrow> (case h e of (tr', r) \<Rightarrow> (tr @ tr', r))
      | (tr, Inr v) \<Rightarrow> (tr, Inr v))"

text \<open>
  \<^verbatim>\<open>try { m } finally { f }\<close>: the block \<open>f\<close> runs on every way out of \<open>m\<close>, and
  the outcome is that of \<open>m\<close> unless \<open>f\<close> itself throws.
\<close>

definition try_finally :: "'a comp \<Rightarrow> unit comp \<Rightarrow> 'a comp" where
  "try_finally m f =
     (case m of (tr, r) \<Rightarrow>
        (case f of
           (tr', Inl e) \<Rightarrow> (tr @ tr', Inl e)
         | (tr', Inr u) \<Rightarrow> (tr @ tr', r)))"

text \<open>A driver call that returns nothing of interest, and one that returns a value.\<close>

definition driver_call :: "call \<Rightarrow> exn option \<Rightarrow> unit comp" where
  "driver_call c failure = ([c], case failure of None \<Rightarrow> Inr () | Some e \<Rightarrow> Inl e)"

definition driver_value :: "call \<Rightarrow> exn + 'a \<Rightarrow> 'a comp" where
  "driver_value c result = ([c], result)"

text \<open>The caller's callback: one step, which returns a value or throws.\<close>

definition run_callback :: "exn + jsval \<Rightarrow> jsval comp" where
  "run_callback cb = ([Callback], cb)"

subsection \<open>MongoAdapter.transaction\<close>

text \<open>
  The mongoose session. \<^verbatim>\<open>startSession\<close> also stands for the read of
  \<^verbatim>\<open>this.connection\<close>, which throws when the adapter was never initialised.
  \<^verbatim>\<open>endSession()\<close> is not awaited, so nothing it does later reaches the caller.
\<close>

record mongo_driver =
  startSession :: "exn option"
  startTransaction :: "exn option"
  commitTransaction :: "exn option"
  abortTransaction :: "exn option"

definition MongoAdapter_transaction :: "mongo_driver \<Rightarrow> exn + jsval \<Rightarrow> jsval comp" where
  "MongoAdapter_transaction d callback =
     and_then (driver_call StartSession (startSession d)) (\<lambda>session.
       try_finally
         (try_catch
            (and_then (driver_call StartTransaction (startTransaction d)) (\<lambda>u.
             and_then (run_callback callback) (\<lambda>result.
             and_then (driver_call CommitTransaction (commitTransaction d)) (\<lambda>u.
             returns result))))
            (\<lambda>error.
               and_then (driver_call AbortTransaction (abortTransaction d)) (\<lambda>u.
               throws (DatabaseError (''Transaction failed: '' @ message error)))))
         (driver_call EndSession None))"

subsection \<open>CockroachDBAdapter.transaction\<close>

text \<open>The pg pool: \<^verbatim>\<open>pool.connect()\<close>, and \<^verbatim>\<open>client.query(sql)\<close> per statement.\<close>

record pg_driver =
  pool_connect :: "exn option"
  client_query :: "string \<Rightarrow> exn option"

text \<open>
  \<^verbatim>\<open>options.priority === 'high'\<close>, with the default \<^verbatim>\<open>options = {}\<close> for an
  argument left out; reading a property of null throws.
\<close>

definition priority_high :: "jsval \<Rightarrow> bool comp" where
  "priority_high options =
     (case options of
        Null \<Rightarrow> throws (TypeError ''Cannot read properties of null (reading 'priority')'')
      | Undefined \<Rightarrow> returns False
      | v \<Rightarrow> returns (get_prop v ''priority'' = Str ''high''))"

definition CockroachDBAdapter_transaction ::
  "pg_driver \<Rightarrow> exn + jsval \<Rightarrow> jsval \<Rightarrow> jsval comp" where
  "CockroachDBAdapter_transaction d callback options =
     and_then (driver_call PoolConnect (pool_connect d)) (\<lambda>client.
       try_finally
         (try_catch
            (and_then (driver_call (ClientQuery ''BEGIN'') (client_query d ''BEGIN'')) (\<lambda>u.
             and_then (priority_high options) (\<lambda>high.
             and_then
               (if high
                then driver_call (ClientQuery ''SET TRANSACTION PRIORITY HIGH'')
                       (client_query d ''SET TRANSACTION PRIORITY HIGH'')
                else returns ()) (\<lambda>u.
             and_then (run_callback callback) (\<lambda>result.
             and_then (driver_call (ClientQuery ''COMMIT'') (client_query d ''COMMIT'')) (\<lambda>u.
             returns result))))))
            (\<lambda>error.
               and_then (driver_call (ClientQuery ''ROLLBACK'') (client_query d ''ROLLBACK'')) (\<lambda>u.
               throws (DatabaseError (''Transaction failed: '' @ message error)))))
         (driver_call ClientRelease None))"

subsection \<open>RedisAdapter.transaction\<close>

text \<open>
  The ioredis client: \<^verbatim>\<open>client.multi()\<close> (which throws when the client is null) and
  \<^verbatim>\<open>multi.exec()\<close> with its reply.
\<close>

record redis_driver =
  client_multi :: "exn option"
  multi_exec :: "exn + jsval"

definition RedisAdapter_transaction :: "redis_driver \<Rightarrow> exn + jsval \<Rightarrow> jsval comp" where
  "RedisAdapter_transaction d callback =
     and_then (driver_call ClientMulti (client_multi d)) (\<lambda>multi.
       try_catch
         (and_then (run_callback callback) (\<lambda>u.
          driver_value MultiExec (multi_exec d)))
         (\<lambda>error. throws (DatabaseError (''Redis transaction failed: '' @ message error))))"

subsection \<open>Every adapter\<close>

text \<open>
  \<^verbatim>\<open>adapter.transaction(callback, opts)\<close>, by the class of the adapter. The base
  class, and the adapters that leave the method as the base class has it, throw.
\<close>

datatype adapter =
    Base
  | Mongo mongo_driver
  | CockroachDB pg_driver
  | Redis redis_driver

fun transaction :: "adapter \<Rightarrow> exn + jsval \<Rightarrow> jsval \<Rightarrow> jsval comp" where
  "transaction Base callback opts = throws (Error ''Not implemented'')"
| "transaction (Mongo d) callback opts = MongoAdapter_transaction d callback"
| "transaction (CockroachDB d) callback opts = CockroachDBAdapter_transaction d callback opts"
| "transaction (Redis d) callback opts = RedisAdapter_transaction d callback"

text \<open>The driver calls that roll back, and those that release the session or connection.\<close>

definition is_rollback :: "call \<Rightarrow> bool" where
  "is_rollback c = (c = AbortTransaction \<or> c = ClientQuery ''ROLLBACK'')"

definition is_release :: "call \<Rightarrow> bool" where
  "is_release c = (c = EndSession \<or> c = ClientRelease)"

section \<open>MongoAdapter: queries, count and exists\<close>

text \<open>
  A predicate is an object: the list of its fields, each with a literal or an operator map.
  \<^verbatim>\<open>operatorMap\<close> is an object literal, so besides its ten own keys a lookup also
  finds the members every object inherits; such a member is truthy, and used as a property
  key it is turned into a string (as V8 prints it).
\<close>

type_synonym entries = "(string \<times> jsval) list"

definition operatorMap :: "(string \<times> string) list" where
  "operatorMap =
    [(''$eq'', ''$eq''), (''$ne'', ''$ne''), (''$gt'', ''$gt''), (''$gte'', ''$gte''),
     (''$lt'', ''$lt''), (''$lte'', ''$lte''), (''$in'', ''$in''), (''$nin'', ''$nin''),
     (''$regex'', ''$regex''), (''$exists'', ''$exists'')]"

definition inherited_methods :: "string list" where
  "inherited_methods =
    [''hasOwnProperty'', ''isPrototypeOf'', ''propertyIsEnumerable'', ''toLocaleString'',
     ''toString'', ''valueOf'', ''__defineGetter__'', ''__defineSetter__'',
     ''__lookupGetter__'', ''__lookupSetter__'']"

definition operatorMap_lookup :: "string \<Rightarrow> string option" where
  "operatorMap_lookup operator =
     (case map_of operatorMap operator of
        Some native \<Rightarrow> Some native
      | None \<Rightarrow>
          if operator = ''constructor'' then Some ''function Object() { [native code] }''
          else if operator = ''__proto__'' then Some ''[object Object]''
          else if operator \<in> set inherited_methods
            then Some (''function '' @ operator @ ''() { [native code] }'')
          else None)"

text \<open>
  The inner loop over an operator map: an operator the table does not have is skipped.
  An assignment to a key already present replaces its value in place.
\<close>

fun assign :: "entries \<Rightarrow> string \<Rightarrow> jsval \<Rightarrow> entries" where
  "assign [] k v = [(k, v)]"
| "assign ((k', v') # es) k v = (if k' = k then (k, v) # es else (k', v') # assign es k v)"

fun collect_conditions :: "entries \<Rightarrow> entries \<Rightarrow> entries" where
  "collect_conditions conditions [] = conditions"
| "collect_conditions conditions ((operator, operand) # rest) =
     (case operatorMap_lookup operator of
        Some native \<Rightarrow> collect_conditions (assign conditions native operand) rest
      | None \<Rightarrow> collect_conditions conditions rest)"

text \<open>
  One field of the predicate. The JavaScript adapter tests \<^verbatim>\<open>typeof value === 'object'\<close>
  and that the value is no array, so null reaches \<^verbatim>\<open>Object.entries\<close>, which throws;
  the TypeScript adapter also tests for null. The flag tells the two apart.
\<close>

definition convert_field :: "bool \<Rightarrow> jsval \<Rightarrow> exn + jsval" where
  "convert_field null_checked v =
     (case v of
        Obj ops \<Rightarrow>
          (let conditions = collect_conditions [] ops
           in Inr (if length conditions > 0 then Obj conditions else v))
      | Null \<Rightarrow>
          (if null_checked then Inr v
           else Inl (TypeError ''Cannot convert undefined or null to object''))
      | v \<Rightarrow> Inr v)"

fun process_fields :: "bool \<Rightarrow> entries \<Rightarrow> entries \<Rightarrow> exn + entries" where
  "process_fields null_checked processed [] = Inr processed"
| "process_fields null_checked processed ((key, v) # rest) =
     (case convert_field null_checked v of
        Inl e \<Rightarrow> Inl e
      | Inr v' \<Rightarrow> process_fields null_checked (assign processed key v') rest)"


definition processQueryOperators_ts :: "entries \<Rightarrow> exn + entries" where
  "processQueryOperators_ts query = process_fields True [] query"

text \<open>
  The TypeScript adapter's \<^verbatim>\<open>count\<close> and \<^verbatim>\<open>exists\<close>. The adapter knows the models
  that were created; mongoose's \<^verbatim>\<open>countDocuments\<close> answers for a model and a filter.
\<close>

record mongo_models =
  models :: "string list"
  countDocuments :: "string \<Rightarrow> entries \<Rightarrow> exn + int"

definition getModel :: "mongo_models \<Rightarrow> string \<Rightarrow> exn + string" where
  "getModel st modelName =
     (if modelName \<in> set (models st) then Inr modelName
      else Inl (Error (''Model '' @ modelName @ '' not found'')))"

definition MongoAdapter_count :: "mongo_models \<Rightarrow> string \<Rightarrow> entries \<Rightarrow> exn + int" where
  "MongoAdapter_count st model query =
     (case (case getModel st model of
              Inl e \<Rightarrow> Inl e
            | Inr modelInstance \<Rightarrow>
                (case processQueryOperators_ts query of
                   Inl e \<Rightarrow> Inl e
                 | Inr converted \<Rightarrow> countDocuments st modelInstance converted)) of
        Inl error \<Rightarrow> Inl (DatabaseError (''Count operation failed: '' @ message error))
      | Inr n \<Rightarrow> Inr n)"

definition MongoAdapter_exists :: "mongo_models \<Rightarrow> string \<Rightarrow> entries \<Rightarrow> exn + bool" where
  "MongoAdapter_exists st model query =
     (case MongoAdapter_count st model query of
        Inl error \<Rightarrow> Inl (DatabaseError (''Exists operation failed: '' @ message error))
      | Inr count \<Rightarrow> Inr (count > 0))"

text \<open>
  \<^verbatim>\<open>count\<close> and \<^verbatim>\<open>exists\<close> of every adapter: the base class and the adapters that
  do not go beyond it throw; the TypeScript MongoDB adapter counts.
\<close>

datatype counting = NotImplemented | MongoTS mongo_models

fun count :: "counting \<Rightarrow> string \<Rightarrow> entries \<Rightarrow> exn + int" where
  "count NotImplemented model query = Inl (Error ''Not implemented'')"
| "count (MongoTS st) model query = MongoAdapter_count st model query"

fun exists :: "counting \<Rightarrow> string \<Rightarrow> entries \<Rightarrow> exn + bool" where
  "exists NotImplemented model query = Inl (Error ''Not implemented'')"
| "exists (MongoTS st) model query = MongoAdapter_exists st model query"

section \<open>CockroachDBAdapter: the SQL compiler\<close>

text \<open>
  \<^verbatim>\<open>Object.entries\<close> of a value: the properties of an object, the indexed elements of
  an array or of a string, nothing for the other primitives.
\<close>

fun object_entries :: "jsval \<Rightarrow> entries" where
  "object_entries (Obj es) = es"
| "object_entries (Arr xs) = zip (map show_nat [0..<length xs]) xs"
| "object_entries (Str s) = zip (map show_nat [0..<length s]) (map (\<lambda>c. Str [c]) s)"
| "object_entries v = []"

text \<open>The placeholder \<^verbatim>\<open>$n\<close>.\<close>

definition placeholder :: "nat \<Rightarrow> string" where
  "placeholder paramCount = ''$'' @ show_nat paramCount"

text \<open>\<^verbatim>\<open>_buildOperatorCondition\<close>: a switch over the operator; the default case throws.\<close>

definition buildOperatorCondition ::
  "string \<Rightarrow> string \<Rightarrow> jsval \<Rightarrow> nat \<Rightarrow> exn + (string \<times> jsval)" where
  "buildOperatorCondition key operator v paramCount =
     (if operator = ''$eq'' then Inr (key @ '' = '' @ placeholder paramCount, v)
      else if operator = ''$ne'' then Inr (key @ '' != '' @ placeholder paramCount, v)
      else if operator = ''$gt'' then Inr (key @ '' > '' @ placeholder paramCount, v)
      else if operator = ''$gte'' then Inr (key @ '' >= '' @ placeholder paramCount, v)
      else if operator = ''$lt'' then Inr (key @ '' < '' @ placeholder paramCount, v)
      else if operator = ''$lte'' then Inr (key @ '' <= '' @ placeholder paramCount, v)
      else if operator = ''$in'' then Inr (key @ '' = ANY('' @ placeholder paramCount @ '')'', v)
      else if operator = ''$nin'' then Inr (key @ '' != ALL('' @ placeholder paramCount @ '')'', v)
      else if operator = ''$like'' then Inr (key @ '' LIKE '' @ placeholder paramCount, v)
      else if operator = ''$ilike'' then Inr (key @ '' ILIKE '' @ placeholder paramCount, v)
      else if operator = ''$contains'' then Inr (key @ '' @> '' @ placeholder paramCount, v)
      else if operator = ''$contained'' then Inr (key @ '' <@ '' @ placeholder paramCount, v)
      else if operator = ''$overlap'' then Inr (key @ '' && '' @ placeholder paramCount, v)
      else if operator = ''$any'' then Inr (placeholder paramCount @ '' = ANY('' @ key @ '')'', v)
      else if operator = ''$all'' then Inr (placeholder paramCount @ '' = ALL('' @ key @ '')'', v)
      else Inl (Error (''Unknown operator: '' @ operator)))"

text \<open>
  \<^verbatim>\<open>_buildWhereClause\<close>. The loops carry the conditions, the values and the parameter
  counter; the inner loop runs over the operator map of one field.
\<close>

type_synonym where_acc = "string list \<times> jsval list \<times> nat"

fun where_operators :: "string \<Rightarrow> entries \<Rightarrow> where_acc \<Rightarrow> exn + where_acc" where
  "where_operators key [] acc = Inr acc"
| "where_operators key ((operator, operand) # rest) (conditions, vals, paramCount) =
     (case buildOperatorCondition key operator operand paramCount of
        Inl e \<Rightarrow> Inl e
      | Inr (condition, operandValue) \<Rightarrow>
          where_operators key rest
            (conditions @ [condition], vals @ [operandValue], paramCount + 1))"

definition is_operator_map :: "jsval \<Rightarrow> bool" where
  "is_operator_map v = (typeof_object v \<and> v \<noteq> Null)"

fun where_fields :: "entries \<Rightarrow> where_acc \<Rightarrow> exn + where_acc" where
  "where_fields [] acc = Inr acc"
| "where_fields ((key, v) # rest) (conditions, vals, paramCount) =
     (if is_operator_map v
      then (case where_operators key (object_entries v) (conditions, vals, paramCount) of
              Inl e \<Rightarrow> Inl e
            | Inr acc \<Rightarrow> where_fields rest acc)
      else where_fields rest
             (conditions @ [key @ '' = '' @ placeholder paramCount], vals @ [v], paramCount + 1))"

definition buildWhereClause :: "entries \<Rightarrow> exn + (string \<times> jsval list)" where
  "buildWhereClause query =
     (case where_fields query ([], [], 1) of
        Inl e \<Rightarrow> Inl e
      | Inr (conditions, vals, paramCount) \<Rightarrow>
          Inr (if length conditions > 0 then join '' AND '' conditions else [], vals))"

text \<open>
  \<^verbatim>\<open>_buildSelectQuery\<close>. The template literal keeps the line breaks and the
  indentation of the source.
\<close>

definition nl :: string where
  "nl = [CHR 0x0A]"

definition orderClause :: "string \<times> jsval \<Rightarrow> string" where
  "orderClause = (\<lambda>(column, order). column @ '' '' @ (if order = Num (- 1) then ''DESC'' else ''ASC''))"

definition buildSelectQuery ::
  "string \<Rightarrow> entries \<Rightarrow> jsval \<Rightarrow> jsval \<Rightarrow> jsval \<Rightarrow> jsval \<Rightarrow> jsval \<Rightarrow> exn + (string \<times> jsval list)"
  where
  "buildSelectQuery tableName query select orderBy limit offset forUpdate =
     (case buildWhereClause query of
        Inl e \<Rightarrow> Inl e
      | Inr (conditions, vals) \<Rightarrow>
          Inr (nl @ replicate 12 CHR '' '' @ ''SELECT '' @ toString select @
               nl @ replicate 12 CHR '' '' @ ''FROM '' @ tableName @
               nl @ replicate 12 CHR '' '' @
                 (if conditions \<noteq> [] then ''WHERE '' @ conditions else []) @
               nl @ replicate 8 CHR '' '' @
               (if truthy orderBy
                then '' ORDER BY '' @ join '', '' (map orderClause (object_entries orderBy))
                else []) @
               (if truthy limit then '' LIMIT '' @ toString limit else []) @
               (if truthy offset then '' OFFSET '' @ toString offset else []) @
               (if truthy forUpdate then '' FOR UPDATE'' else []),
               vals))"

text \<open>
  \<^verbatim>\<open>_formatDefaultValue\<close>, for a default that is not a function. \<^verbatim>\<open>JSON.stringify\<close>
  is a parameter: the text it gives, or nothing where it returns undefined.
\<close>

definition spliced :: "string option \<Rightarrow> string" where
  "spliced s = (case s of Some t \<Rightarrow> t | None \<Rightarrow> ''undefined'')"

definition quoted :: "jsval \<Rightarrow> string" where
  "quoted v = [CHR 0x27] @ toString v @ [CHR 0x27]"

definition formatDefaultValue ::
  "(jsval \<Rightarrow> string option) \<Rightarrow> jsval \<Rightarrow> jsval \<Rightarrow> exn + jsval" where
  "formatDefaultValue stringify v type =
     (if type = Str ''string'' \<or> type = Str ''text'' then Inr (Str (quoted v))
      else if type = Str ''json''
        then Inr (Str ([CHR 0x27] @ spliced (stringify v) @ [CHR 0x27] @ ''::jsonb''))
      else if type = Str ''array''
        then (case v of
                Arr xs \<Rightarrow> Inr (Str (''ARRAY['' @ join '', '' (map quoted xs) @ '']''))
              | Null \<Rightarrow> Inl (TypeError ''Cannot read properties of null (reading 'map')'')
              | Undefined \<Rightarrow>
                  Inl (TypeError ''Cannot read properties of undefined (reading 'map')'')
              | other \<Rightarrow> Inl (TypeError ''value.map is not a function''))
      else if type = Str ''date''
        then Inr (if v = Str ''now'' then Str ''CURRENT_TIMESTAMP'' else Str (quoted v))
      else Inr v)"

text \<open>
  The operand values of a predicate, in the order of the loops, and its shape: the field
  names with, for an operator map, the operator keys, and no value at all.
\<close>

definition operands :: "entries \<Rightarrow> jsval list" where
  "operands query =
     concat (map (\<lambda>(key, v). if is_operator_map v then map snd (object_entries v) else [v]) query)"

definition shape :: "entries \<Rightarrow> (string \<times> string list option) list" where
  "shape query =
     map (\<lambda>(key, v). (key, if is_operator_map v then Some (map fst (object_entries v)) else None))
       query"

text \<open>The operators of the switch, and the operator keys of a predicate outside them.\<close>

definition sql_operators :: "string list" where
  "sql_operators =
    [''$eq'', ''$ne'', ''$gt'', ''$gte'', ''$lt'', ''$lte'', ''$in'', ''$nin'', ''$like'',
     ''$ilike'', ''$contains'', ''$contained'', ''$overlap'', ''$any'', ''$all'']"

definition operator_keys :: "entries \<Rightarrow> string list" where
  "operator_keys query =
     concat (map (\<lambda>(key, v). if is_operator_map v then map fst (object_entries v) else []) query)"

definition unknown_operators :: "string list \<Rightarrow> entries \<Rightarrow> string list" where
  "unknown_operators known query = filter (\<lambda>operator. operator \<notin> set known) (operator_keys query)"

text \<open>The result of the loops without the values: the conditions and the counter, or the error.\<close>

definition without_values :: "exn + where_acc \<Rightarrow> exn + (string list \<times> nat)" where
  "without_values r = map_sum id (\<lambda>(cs, vs, n). (cs, n)) r"

text \<open>
  The conditions a predicate states, read off the predicate itself: one for each field
  with a literal (an equality) and one for each entry of an operator map, in the order of
  the predicate, each with its field, its operator and its operand. A field whose
  operator map is empty states none.
\<close>

definition predicate_conditions :: "entries \<Rightarrow> (string \<times> string \<times> jsval) list" where
  "predicate_conditions query =
     concat (map (\<lambda>(key, v).
                    if is_operator_map v
                    then map (\<lambda>(operator, operand). (key, operator, operand)) (object_entries v)
                    else [(key, ''$eq'', v)]) query)"

text \<open>A list with its positions, counted from \<open>n\<close>.\<close>

fun numbered_from :: "nat \<Rightarrow> 'a list \<Rightarrow> (nat \<times> 'a) list" where
  "numbered_from n [] = []"
| "numbered_from n (x # xs) = (n, x) # numbered_from (Suc n) xs"

text \<open>
  What each operator is in SQL, as a table: whether the column comes before the parameter
  or after it, the text between the two, and the text that closes the condition. The
  parameter of position \<open>n\<close> is written \<^verbatim>\<open>$n\<close>, in decimal.
\<close>

definition sql_forms :: "(string \<times> bool \<times> string \<times> string) list" where
  "sql_forms =
    [(''$eq'', True, '' = '', []),
     (''$ne'', True, '' != '', []),
     (''$gt'', True, '' > '', []),
     (''$gte'', True, '' >= '', []),
     (''$lt'', True, '' < '', []),
     (''$lte'', True, '' <= '', []),
     (''$in'', True, '' = ANY('', '')''),
     (''$nin'', True, '' != ALL('', '')''),
     (''$like'', True, '' LIKE '', []),
     (''$ilike'', True, '' ILIKE '', []),
     (''$contains'', True, '' @> '', []),
     (''$contained'', True, '' <@ '', []),
     (''$overlap'', True, '' && '', []),
     (''$any'', False, '' = ANY('', '')''),
     (''$all'', False, '' = ALL('', '')'')]"

definition sql_condition :: "string \<Rightarrow> string \<Rightarrow> nat \<Rightarrow> string option" where
  "sql_condition key operator n =
     (case map_of sql_forms operator of
        None \<Rightarrow> None
      | Some (column_first, between, closing) \<Rightarrow>
          Some (if column_first then key @ between @ ''$'' @ show_nat n @ closing
                else ''$'' @ show_nat n @ between @ key @ closing))"

section \<open>ArangoAdapter: the AQL compiler\<close>

text \<open>
  The \<^verbatim>\<open>aql\<close> template tag of the driver builds a query from the literal text of the
  template and, for every interpolated value, a bind parameter; a query interpolated into
  another, or joined with \<^verbatim>\<open>aql.join\<close>, is inlined. A query is modelled as the
  sequence of its pieces.
\<close>

datatype aql_part = Text string | Bound jsval

type_synonym aql = "aql_part list"

fun aql_join :: "aql list \<Rightarrow> string \<Rightarrow> aql" where
  "aql_join [] sep = []"
| "aql_join [q] sep = q"
| "aql_join (q # q' # qs) sep = q @ [Text sep] @ aql_join (q' # qs) sep"

text \<open>\<^verbatim>\<open>_buildOperatorExpression\<close>: a switch over the operator; the default case throws.\<close>

definition comparison :: "string \<Rightarrow> string \<Rightarrow> jsval \<Rightarrow> aql" where
  "comparison key sign v = [Text ''doc.'', Bound (Str key), Text ('' '' @ sign @ '' ''), Bound v]"

definition buildOperatorExpression :: "string \<Rightarrow> string \<Rightarrow> jsval \<Rightarrow> exn + aql" where
  "buildOperatorExpression key operator v =
     (if operator = ''$eq'' then Inr (comparison key ''=='' v)
      else if operator = ''$ne'' then Inr (comparison key ''!='' v)
      else if operator = ''$gt'' then Inr (comparison key ''>'' v)
      else if operator = ''$gte'' then Inr (comparison key ''>='' v)
      else if operator = ''$lt'' then Inr (comparison key ''<'' v)
      else if operator = ''$lte'' then Inr (comparison key ''<='' v)
      else if operator = ''$in'' then Inr (comparison key ''IN'' v)
      else if operator = ''$nin'' then Inr (comparison key ''NOT IN'' v)
      else if operator = ''$exists''
        then Inr (if truthy v then [Text ''HAS(doc, '', Bound (Str key), Text '')'']
                  else [Text ''!HAS(doc, '', Bound (Str key), Text '')''])
      else if operator = ''$regex''
        then Inr [Text ''REGEX_TEST(doc.'', Bound (Str key), Text '', '', Bound v, Text '', true)'']
      else Inl (Error (''Unknown operator: '' @ operator)))"

text \<open>\<^verbatim>\<open>_buildFilterExpression\<close>: one condition per operator of a field, or per literal.\<close>

fun filter_operators :: "string \<Rightarrow> entries \<Rightarrow> aql list \<Rightarrow> exn + aql list" where
  "filter_operators key [] conditions = Inr conditions"
| "filter_operators key ((operator, operand) # rest) conditions =
     (case buildOperatorExpression key operator operand of
        Inl e \<Rightarrow> Inl e
      | Inr condition \<Rightarrow> filter_operators key rest (conditions @ [condition]))"

fun filter_fields :: "entries \<Rightarrow> aql list \<Rightarrow> exn + aql list" where
  "filter_fields [] conditions = Inr conditions"
| "filter_fields ((key, v) # rest) conditions =
     (if is_operator_map v
      then (case filter_operators key (object_entries v) conditions of
              Inl e \<Rightarrow> Inl e
            | Inr conditions' \<Rightarrow> filter_fields rest conditions')
      else filter_fields rest (conditions @ [comparison key ''=='' v]))"

definition buildFilterExpression :: "entries \<Rightarrow> exn + aql" where
  "buildFilterExpression query =
     (case filter_fields query [] of
        Inl e \<Rightarrow> Inl e
      | Inr conditions \<Rightarrow>
          Inr (if length conditions > 0 then aql_join conditions '' AND '' else [Text ''true'']))"




section \<open>RedisAdapter: values\<close>

text \<open>
  \<^verbatim>\<open>JSON.stringify\<close> and \<^verbatim>\<open>JSON.parse\<close> belong to the language, not to the
  repository: they are parameters. \<^verbatim>\<open>stringify\<close> gives a text, or nothing where
  JavaScript returns undefined; \<^verbatim>\<open>parse\<close> gives a value, or nothing where JavaScript
  throws a SyntaxError.
\<close>

record json =
  JSON_stringify :: "jsval \<Rightarrow> string option"
  JSON_parse :: "string \<Rightarrow> jsval option"

definition serialize :: "json \<Rightarrow> jsval \<Rightarrow> jsval" where
  "serialize J v =
     (case v of
        Str s \<Rightarrow> Str s
      | other \<Rightarrow> (case JSON_stringify J other of Some s \<Rightarrow> Str s | None \<Rightarrow> Undefined))"

text \<open>The reply of \<^verbatim>\<open>GET\<close> is a string, or null for a key that is not there.\<close>

definition deserialize :: "json \<Rightarrow> string option \<Rightarrow> jsval" where
  "deserialize J reply =
     (case reply of
        None \<Rightarrow> Null
      | Some s \<Rightarrow> (case JSON_parse J s of Some v \<Rightarrow> v | None \<Rightarrow> Str s))"

text \<open>
  The ioredis client, over a server state of type \<open>'st\<close>: \<^verbatim>\<open>client.set(...args)\<close> gives
  the new server state and the reply, \<^verbatim>\<open>client.get(key)\<close> the reply. Before
  \<^verbatim>\<open>initialize()\<close> the adapter's \<^verbatim>\<open>client\<close> is null.
\<close>

record 'st ioredis =
  set_reply :: "jsval list \<Rightarrow> 'st \<Rightarrow> exn + ('st \<times> jsval)"
  get_reply :: "string \<Rightarrow> 'st \<Rightarrow> exn + string option"

definition set_args :: "json \<Rightarrow> string \<Rightarrow> jsval \<Rightarrow> jsval \<Rightarrow> exn + jsval list" where
  "set_args J key v options =
     (case options of
        Null \<Rightarrow>
          Inl (TypeError ''Cannot destructure property 'ttl' of 'options' as it is null.'')
      | other \<Rightarrow>
          (let ttl = get_prop options ''ttl'';
               nx = get_prop options ''nx'';
               xx = get_prop options ''xx''
           in Inr ([Str key, serialize J v] @
                   (if truthy ttl then [Str ''EX'', ttl] else []) @
                   (if truthy nx then [Str ''NX''] else []) @
                   (if truthy xx then [Str ''XX''] else []))))"

definition RedisAdapter_create ::
  "json \<Rightarrow> 'st ioredis \<Rightarrow> 'st option \<Rightarrow> string \<Rightarrow> jsval \<Rightarrow> jsval \<Rightarrow> 'st option \<times> (exn + jsval)"
  where
  "RedisAdapter_create J D client key v options =
     (case (case set_args J key v options of
              Inl e \<Rightarrow> Inl e
            | Inr args \<Rightarrow>
                (case client of
                   None \<Rightarrow> Inl (TypeError ''Cannot read properties of null (reading 'set')'')
                 | Some st \<Rightarrow> set_reply D args st)) of
        Inl error \<Rightarrow>
          (client, Inl (DatabaseError (''Redis SET operation failed: '' @ message error)))
      | Inr (st', reply) \<Rightarrow> (Some st', Inr reply))"

definition RedisAdapter_get ::
  "json \<Rightarrow> 'st ioredis \<Rightarrow> 'st option \<Rightarrow> string \<Rightarrow> exn + jsval" where
  "RedisAdapter_get J D client key =
     (case (case client of
              None \<Rightarrow> Inl (TypeError ''Cannot read properties of null (reading 'get')'')
            | Some st \<Rightarrow> get_reply D key st) of
        Inl error \<Rightarrow> Inl (DatabaseError (''Redis GET operation failed: '' @ message error))
      | Inr reply \<Rightarrow> Inr (deserialize J reply))"

subsection \<open>Stand-ins to run the adapter on examples\<close>

text \<open>
  A server that keeps strings under keys, with \<^verbatim>\<open>SET key value\<close> and its NX and XX
  variants; and the scalars of JSON: null, the booleans, integers in decimal and strings
  without escapes. They are instances of the parameters above, used on examples only.
\<close>

definition memory_redis :: "(string \<times> string) list ioredis" where
  "memory_redis =
     \<lparr>set_reply = (\<lambda>args st.
        case args of
          [Str k, Str v] \<Rightarrow> Inr ((k, v) # st, Str ''OK'')
        | [Str k, Str v, Str flag] \<Rightarrow>
            if flag = ''NX''
              then (if map_of st k = None then Inr ((k, v) # st, Str ''OK'') else Inr (st, Null))
            else if flag = ''XX''
              then (if map_of st k = None then Inr (st, Null) else Inr ((k, v) # st, Str ''OK''))
            else Inl (Error ''ERR syntax error'')
        | other \<Rightarrow> Inl (Error ''ERR syntax error'')),
      get_reply = (\<lambda>key st. Inr (map_of st key))\<rparr>"

definition is_digit :: "char \<Rightarrow> bool" where
  "is_digit c = (c \<in> set ''0123456789'')"

definition digit_value :: "char \<Rightarrow> nat" where
  "digit_value c = (case map_of (zip ''0123456789'' [0..<10]) c of Some d \<Rightarrow> d | None \<Rightarrow> 0)"

definition read_nat :: "string \<Rightarrow> nat" where
  "read_nat s = foldl (\<lambda>n c. 10 * n + digit_value c) 0 s"

definition is_integer_text :: "string \<Rightarrow> bool" where
  "is_integer_text s = (s \<noteq> [] \<and> list_all is_digit s \<and> (s = ''0'' \<or> hd s \<noteq> CHR ''0''))"

definition is_plain_char :: "char \<Rightarrow> bool" where
  "is_plain_char c = (c \<noteq> CHR 0x22 \<and> c \<noteq> CHR 0x5C \<and> (32::nat) \<le> of_char c)"

definition scalar_parse :: "string \<Rightarrow> jsval option" where
  "scalar_parse s =
     (if s = ''null'' then Some Null
      else if s = ''true'' then Some (Bool True)
      else if s = ''false'' then Some (Bool False)
      else if is_integer_text s then Some (Num (int (read_nat s)))
      else if hd s = CHR ''-'' \<and> is_integer_text (tl s) then Some (Num (- int (read_nat (tl s))))
      else if 2 \<le> length s \<and> hd s = CHR 0x22 \<and> last s = CHR 0x22 \<and>
              list_all is_plain_char (butlast (tl s))
        then Some (Str (butlast (tl s)))
      else None)"

definition scalar_stringify :: "jsval \<Rightarrow> string option" where
  "scalar_stringify v =
     (case v of
        Null \<Rightarrow> Some ''null''
      | Bool b \<Rightarrow> Some (if b then ''true'' else ''false'')
      | Num n \<Rightarrow> Some (show_int n)
      | Str s \<Rightarrow> if list_all is_plain_char s then Some ([CHR 0x22] @ s @ [CHR 0x22]) else None
      | other \<Rightarrow> None)"

definition scalar_json :: json where
  "scalar_json = \<lparr>JSON_stringify = scalar_stringify, JSON_parse = scalar_parse\<rparr>"

section \<open>Evaluation lemmas\<close>

lemma lower_redis: "toLowerCase ''redis'' = ''redis''"
  by (simp add: toLowerCase_def lower_char_def)

lemma lower_postgres: "toLowerCase ''postgres'' = ''postgres''"
  by (simp add: toLowerCase_def lower_char_def)

lemma createDatabase_cases:
  "createDatabase reg h type config =
     (case reg (toLowerCase type) of
        None \<Rightarrow> (h, Inl (Error (''Unsupported database type: '' @ type)))
      | Some C \<Rightarrow> (h @ [(C, config)], Inr (length h)))"
  by (simp add: createDatabase_def new_def split: option.splits)

lemmas comp_defs = returns_def throws_def and_then_def try_catch_def try_finally_def
  driver_call_def driver_value_def run_callback_def

subsection \<open>The loops of the WHERE clause\<close>

lemma buildOperatorCondition_unknown:
  "operator \<notin> set sql_operators \<Longrightarrow>
   buildOperatorCondition key operator v n = Inl (Error (''Unknown operator: '' @ operator))"
  by (simp add: buildOperatorCondition_def sql_operators_def)

lemma buildOperatorCondition_known:
  "operator \<in> set sql_operators \<Longrightarrow>
   \<exists>c. buildOperatorCondition key operator v n = Inr (c, v)"
  by (auto simp: buildOperatorCondition_def sql_operators_def)

lemma where_operators_unknown:
  "filter (\<lambda>operator. operator \<notin> set sql_operators) (map fst es) = op # rest \<Longrightarrow>
   where_operators key es acc = Inl (Error (''Unknown operator: '' @ op))"
proof (induction es arbitrary: acc)
  case Nil
  then show ?case by simp
next
  case (Cons a es)
  obtain operator operand where a: "a = (operator, operand)" by (cases a)
  obtain cs vs n where acc: "acc = (cs, vs, n)" by (cases acc)
  show ?case
  proof (cases "operator \<in> set sql_operators")
    case True
    then obtain c where c: "buildOperatorCondition key operator operand n = Inr (c, operand)"
      using buildOperatorCondition_known by blast
    from True Cons.prems a
    have "filter (\<lambda>operator. operator \<notin> set sql_operators) (map fst es) = op # rest" by simp
    from Cons.IH[OF this] show ?thesis by (simp add: a acc c)
  next
    case False
    with Cons.prems a have "op = operator" by simp
    with False show ?thesis by (simp add: a acc buildOperatorCondition_unknown)
  qed
qed

lemma where_operators_known:
  "filter (\<lambda>operator. operator \<notin> set sql_operators) (map fst es) = [] \<Longrightarrow>
   \<exists>cs'. where_operators key es (cs, vs, n) = Inr (cs @ cs', vs @ map snd es, n + length es) \<and>
         length cs' = length es"
proof (induction es arbitrary: cs vs n)
  case Nil
  then show ?case by simp
next
  case (Cons a es)
  obtain operator operand where a: "a = (operator, operand)" by (cases a)
  from Cons.prems a have k: "operator \<in> set sql_operators"
    and r: "filter (\<lambda>operator. operator \<notin> set sql_operators) (map fst es) = []"
    by (auto split: if_splits)
  from k obtain c where c: "buildOperatorCondition key operator operand n = Inr (c, operand)"
    using buildOperatorCondition_known by blast
  from Cons.IH[OF r, of "cs @ [c]" "vs @ [operand]" "n + 1"]
  obtain cs' where "where_operators key es (cs @ [c], vs @ [operand], n + 1) =
      Inr ((cs @ [c]) @ cs', (vs @ [operand]) @ map snd es, n + 1 + length es)"
    and "length cs' = length es" by blast
  then show ?case
    by (intro exI[of _ "c # cs'"]) (simp add: a c)
qed

lemma where_fields_unknown:
  "unknown_operators sql_operators query = op # rest \<Longrightarrow>
   where_fields query acc = Inl (Error (''Unknown operator: '' @ op))"
proof (induction query arbitrary: acc)
  case Nil
  then show ?case by (simp add: unknown_operators_def operator_keys_def)
next
  case (Cons a query)
  obtain key v where a: "a = (key, v)" by (cases a)
  obtain cs vs n where acc: "acc = (cs, vs, n)" by (cases acc)
  show ?case
  proof (cases "is_operator_map v")
    case False
    with Cons.prems a have "unknown_operators sql_operators query = op # rest"
      by (simp add: unknown_operators_def operator_keys_def)
    from Cons.IH[OF this] False show ?thesis by (simp add: a acc)
  next
    case True
    show ?thesis
    proof (cases "filter (\<lambda>operator. operator \<notin> set sql_operators) (map fst (object_entries v))")
      case Nil
      with True Cons.prems a have "unknown_operators sql_operators query = op # rest"
        by (simp add: unknown_operators_def operator_keys_def)
      from Cons.IH[OF this] where_operators_known[OF Nil, of key cs vs n] True
      show ?thesis by (auto simp: a acc)
    next
      case (Cons op' rest')
      with True Cons.prems a have "op' = op"
        by (simp add: unknown_operators_def operator_keys_def)
      with where_operators_unknown[OF Cons, of key "(cs, vs, n)"] True
      show ?thesis by (simp add: a acc)
    qed
  qed
qed

subsection \<open>Positions and placeholders\<close>

lemma numbered_from_append:
  "numbered_from n (xs @ ys) = numbered_from n xs @ numbered_from (n + length xs) ys"
  by (induction xs arbitrary: n) simp_all

lemma length_numbered_from: "length (numbered_from n xs) = length xs"
  by (induction xs arbitrary: n) simp_all

lemma nth_numbered_from: "i < length xs \<Longrightarrow> numbered_from n xs ! i = (n + i, xs ! i)"
proof (induction xs arbitrary: n i)
  case Nil
  then show ?case by simp
next
  case (Cons x xs)
  then show ?case by (cases i) simp_all
qed

lemma numbered_from_map:
  "numbered_from n (map f xs) = map (\<lambda>(i, x). (i, f x)) (numbered_from n xs)"
  by (induction xs arbitrary: n) simp_all

lemma digit_value_digit_char: "d < 10 \<Longrightarrow> digit_value (digit_char d) = d"
proof -
  assume "d < 10"
  then have "d \<in> {0, 1, 2, 3, 4, 5, 6, 7, 8, 9}" by auto
  then show ?thesis
    by (auto simp: digit_value_def digit_char_def upt_rec)
qed

lemma read_nat_snoc: "read_nat (s @ [c]) = 10 * read_nat s + digit_value c"
  by (simp add: read_nat_def)

lemma read_show_nat: "read_nat (show_nat n) = n"
proof (induction n rule: show_nat.induct)
  case (1 n)
  show ?case
  proof (cases "n < 10")
    case True
    then show ?thesis
      by (subst show_nat.simps) (simp add: read_nat_def digit_value_digit_char)
  next
    case False
    with "1.IH" have "read_nat (show_nat (n div 10)) = n div 10" by simp
    with False show ?thesis
      by (subst show_nat.simps) (simp add: read_nat_snoc digit_value_digit_char)
  qed
qed

lemma show_nat_inject: "show_nat m = show_nat n \<Longrightarrow> m = n"
  by (metis read_show_nat)

lemma placeholder_inject: "(placeholder m = placeholder n) = (m = n)"
  by (auto simp: placeholder_def dest: show_nat_inject)

subsection \<open>The conditions of the WHERE clause, one by one\<close>

lemma sql_condition_known:
  "operator \<in> set sql_operators \<Longrightarrow>
   \<exists>c. sql_condition key operator n = Some c \<and> buildOperatorCondition key operator v n = Inr (c, v)"
  by (auto simp: sql_operators_def sql_condition_def sql_forms_def buildOperatorCondition_def
      placeholder_def)

lemma sql_condition_literal:
  "sql_condition key ''$eq'' n = Some (key @ '' = '' @ placeholder n)"
  by (simp add: sql_condition_def sql_forms_def placeholder_def)

lemma where_operators_exact:
  "filter (\<lambda>operator. operator \<notin> set sql_operators) (map fst es) = [] \<Longrightarrow>
   \<exists>cs'. where_operators key es (cs, vs, n) = Inr (cs @ cs', vs @ map snd es, n + length es) \<and>
         map Some cs' =
           map (\<lambda>(i, operator, operand). sql_condition key operator i) (numbered_from n es)"
proof (induction es arbitrary: cs vs n)
  case Nil
  then show ?case by simp
next
  case (Cons a es)
  obtain operator operand where a: "a = (operator, operand)" by (cases a)
  from Cons.prems a have k: "operator \<in> set sql_operators"
    and r: "filter (\<lambda>operator. operator \<notin> set sql_operators) (map fst es) = []"
    by (auto split: if_splits)
  from sql_condition_known[OF k, of key n operand]
  obtain c where sc: "sql_condition key operator n = Some c"
    and c: "buildOperatorCondition key operator operand n = Inr (c, operand)" by blast
  from Cons.IH[OF r, of "cs @ [c]" "vs @ [operand]" "n + 1"]
  obtain cs' where w: "where_operators key es (cs @ [c], vs @ [operand], n + 1) =
      Inr ((cs @ [c]) @ cs', (vs @ [operand]) @ map snd es, n + 1 + length es)"
    and m: "map Some cs' =
           map (\<lambda>(i, operator, operand). sql_condition key operator i) (numbered_from (n + 1) es)"
    by blast
  from w m sc show ?case
    by (intro exI[of _ "c # cs'"]) (simp add: a c)
qed

lemma operands_predicate_conditions:
  "operands query = map (\<lambda>(key, operator, operand). operand) (predicate_conditions query)"
  by (induction query) (auto simp: operands_def predicate_conditions_def comp_def case_prod_beta)

lemma where_fields_exact:
  "unknown_operators sql_operators query = [] \<Longrightarrow>
   \<exists>cs'. where_fields query (cs, vs, n) =
           Inr (cs @ cs', vs @ operands query, n + length (predicate_conditions query)) \<and>
         map Some cs' =
           map (\<lambda>(i, key, operator, operand). sql_condition key operator i)
             (numbered_from n (predicate_conditions query))"
proof (induction query arbitrary: cs vs n)
  case Nil
  then show ?case by (simp add: operands_def predicate_conditions_def)
next
  case (Cons a query)
  obtain key v where a: "a = (key, v)" by (cases a)
  show ?case
  proof (cases "is_operator_map v")
    case False
    with Cons.prems a have "unknown_operators sql_operators query = []"
      by (simp add: unknown_operators_def operator_keys_def)
    from Cons.IH[OF this, of "cs @ [key @ '' = '' @ placeholder n]" "vs @ [v]" "Suc n"]
    obtain cs' where w: "where_fields query (cs @ [key @ '' = '' @ placeholder n], vs @ [v], Suc n) =
        Inr ((cs @ [key @ '' = '' @ placeholder n]) @ cs', (vs @ [v]) @ operands query,
             Suc n + length (predicate_conditions query))"
      and m: "map Some cs' =
           map (\<lambda>(i, key, operator, operand). sql_condition key operator i)
             (numbered_from (Suc n) (predicate_conditions query))" by blast
    have pc: "predicate_conditions ((key, v) # query) =
        (key, ''$eq'', v) # predicate_conditions query"
      using False by (simp add: predicate_conditions_def)
    have op: "operands ((key, v) # query) = v # operands query"
      using False by (simp add: operands_def)
    from w m False show ?thesis
      by (intro exI[of _ "(key @ '' = '' @ placeholder n) # cs'"])
         (simp add: a pc op sql_condition_literal)
  next
    case True
    let ?es = "object_entries v"
    from True Cons.prems a
    have u1: "filter (\<lambda>operator. operator \<notin> set sql_operators) (map fst ?es) = []"
      and u2: "unknown_operators sql_operators query = []"
      by (simp_all add: unknown_operators_def operator_keys_def)
    from where_operators_exact[OF u1, of key cs vs n]
    obtain c1 where c1: "where_operators key ?es (cs, vs, n) =
        Inr (cs @ c1, vs @ map snd ?es, n + length ?es)"
      and m1: "map Some c1 =
           map (\<lambda>(i, operator, operand). sql_condition key operator i) (numbered_from n ?es)"
      by blast
    from Cons.IH[OF u2, of "cs @ c1" "vs @ map snd ?es" "n + length ?es"]
    obtain c2 where c2: "where_fields query (cs @ c1, vs @ map snd ?es, n + length ?es) =
        Inr ((cs @ c1) @ c2, (vs @ map snd ?es) @ operands query,
             n + length ?es + length (predicate_conditions query))"
      and m2: "map Some c2 =
           map (\<lambda>(i, key, operator, operand). sql_condition key operator i)
             (numbered_from (n + length ?es) (predicate_conditions query))" by blast
    have pc: "predicate_conditions ((key, v) # query) =
        map (\<lambda>(operator, operand). (key, operator, operand)) ?es @ predicate_conditions query"
      using True by (simp add: predicate_conditions_def)
    have op: "operands ((key, v) # query) = map snd ?es @ operands query"
      using True by (simp add: operands_def)
    have m1': "map Some c1 =
        map (\<lambda>(i, key, operator, operand). sql_condition key operator i)
          (numbered_from n (map (\<lambda>(operator, operand). (key, operator, operand)) ?es))"
      unfolding m1 numbered_from_map by (simp add: case_prod_beta comp_def)
    from True c1 c2 m1' m2 show ?thesis
      by (intro exI[of _ "c1 @ c2"])
         (simp add: a pc op numbered_from_append add.assoc)
  qed
qed


lemma where_fields_known:
  assumes "unknown_operators sql_operators query = []"
  obtains conditions where
    "where_fields query ([], [], 1) =
       Inr (conditions, operands query, 1 + length (predicate_conditions query))"
    "map Some conditions =
       map (\<lambda>(n, key, operator, operand). sql_condition key operator n)
         (numbered_from 1 (predicate_conditions query))"
  using where_fields_exact[OF assms, of "[]" "[]" 1] by auto

lemma length_operands: "length (operands query) = length (predicate_conditions query)"
  by (simp add: operands_predicate_conditions)

lemma nth_operands:
  "i < length (predicate_conditions query) \<Longrightarrow> predicate_conditions query ! i = (key, operator, operand) \<Longrightarrow>
   operands query ! i = operand"
  by (simp add: operands_predicate_conditions)

lemma sql_conditions_nth:
  assumes "map Some cs =
      map (\<lambda>(n, key, operator, operand). sql_condition key operator n) (numbered_from k pcs)"
    and "i < length pcs" and "pcs ! i = (key, operator, operand)"
  shows "i < length cs \<and> Some (cs ! i) = sql_condition key operator (k + i)"
proof -
  from assms(1) have l: "length cs = length pcs"
    by (metis length_map length_numbered_from)
  with assms(2) have "Some (cs ! i) = map Some cs ! i" by simp
  also have "\<dots> = (\<lambda>(n, key, operator, operand). sql_condition key operator n)
      (numbered_from k pcs ! i)"
    unfolding assms(1) using assms(2) by (simp add: length_numbered_from)
  also have "\<dots> = sql_condition key operator (k + i)"
    using assms(2,3) by (simp add: nth_numbered_from)
  finally show ?thesis using l assms(2) by simp
qed

section \<open>Transactions\<close>

lemma Mongo_commit:
  "startSession d = None \<Longrightarrow> startTransaction d = None \<Longrightarrow> commitTransaction d = None \<Longrightarrow>
   transaction (Mongo d) (Inr v) opts =
     ([StartSession, StartTransaction, Callback, CommitTransaction, EndSession], Inr v)"
  by (simp add: MongoAdapter_transaction_def comp_defs)

lemma Mongo_rollback:
  "startSession d = None \<Longrightarrow> startTransaction d = None \<Longrightarrow> abortTransaction d = None \<Longrightarrow>
   transaction (Mongo d) (Inl e) opts =
     ([StartSession, StartTransaction, Callback, AbortTransaction, EndSession],
      Inl (DatabaseError (''Transaction failed: '' @ message e)))"
  by (simp add: MongoAdapter_transaction_def comp_defs)

lemma Mongo_rollback_fails:
  "startSession d = None \<Longrightarrow> startTransaction d = None \<Longrightarrow> abortTransaction d = Some e' \<Longrightarrow>
   transaction (Mongo d) (Inl e) opts =
     ([StartSession, StartTransaction, Callback, AbortTransaction, EndSession], Inl e')"
  by (simp add: MongoAdapter_transaction_def comp_defs)

lemma Mongo_release:
  "startSession d = None \<Longrightarrow>
   \<exists>tr. fst (transaction (Mongo d) cb opts) = tr @ [EndSession] \<and> \<not> list_ex is_release tr"
  by (cases cb; cases "startTransaction d"; cases "commitTransaction d"; cases "abortTransaction d")
     (simp_all add: MongoAdapter_transaction_def comp_defs is_release_def)

lemma Cockroach_commit:
  "pool_connect p = None \<Longrightarrow> opts \<noteq> Null \<Longrightarrow> client_query p ''BEGIN'' = None \<Longrightarrow>
   client_query p ''SET TRANSACTION PRIORITY HIGH'' = None \<Longrightarrow>
   client_query p ''COMMIT'' = None \<Longrightarrow>
   transaction (CockroachDB p) (Inr v) opts =
     ([PoolConnect, ClientQuery ''BEGIN''] @
      (if get_prop opts ''priority'' = Str ''high''
       then [ClientQuery ''SET TRANSACTION PRIORITY HIGH''] else []) @
      [Callback, ClientQuery ''COMMIT'', ClientRelease], Inr v)"
  by (cases opts) (simp_all add: CockroachDBAdapter_transaction_def priority_high_def comp_defs)

lemma Cockroach_rollback:
  "pool_connect p = None \<Longrightarrow> opts \<noteq> Null \<Longrightarrow> client_query p ''BEGIN'' = None \<Longrightarrow>
   client_query p ''SET TRANSACTION PRIORITY HIGH'' = None \<Longrightarrow>
   client_query p ''ROLLBACK'' = None \<Longrightarrow>
   transaction (CockroachDB p) (Inl e) opts =
     ([PoolConnect, ClientQuery ''BEGIN''] @
      (if get_prop opts ''priority'' = Str ''high''
       then [ClientQuery ''SET TRANSACTION PRIORITY HIGH''] else []) @
      [Callback, ClientQuery ''ROLLBACK'', ClientRelease],
      Inl (DatabaseError (''Transaction failed: '' @ message e)))"
  by (cases opts) (simp_all add: CockroachDBAdapter_transaction_def priority_high_def comp_defs)

lemma Cockroach_rollback_fails:
  "pool_connect p = None \<Longrightarrow> opts \<noteq> Null \<Longrightarrow> client_query p ''BEGIN'' = None \<Longrightarrow>
   client_query p ''SET TRANSACTION PRIORITY HIGH'' = None \<Longrightarrow>
   client_query p ''ROLLBACK'' = Some e' \<Longrightarrow>
   transaction (CockroachDB p) (Inl e) opts =
     ([PoolConnect, ClientQuery ''BEGIN''] @
      (if get_prop opts ''priority'' = Str ''high''
       then [ClientQuery ''SET TRANSACTION PRIORITY HIGH''] else []) @
      [Callback, ClientQuery ''ROLLBACK'', ClientRelease], Inl e')"
  by (cases opts) (simp_all add: CockroachDBAdapter_transaction_def priority_high_def comp_defs)

lemma Cockroach_release:
  "pool_connect p = None \<Longrightarrow>
   \<exists>tr. fst (transaction (CockroachDB p) cb opts) = tr @ [ClientRelease] \<and>
        \<not> list_ex is_release tr"
  by (cases cb; cases "client_query p ''BEGIN''"; cases "client_query p ''COMMIT''";
      cases "client_query p ''ROLLBACK''";
      cases "client_query p ''SET TRANSACTION PRIORITY HIGH''"; cases opts)
     (simp_all add: CockroachDBAdapter_transaction_def priority_high_def comp_defs is_release_def)

text \<open>
  Claim C1, as amended. For the MongoDB and CockroachDB adapters, once the session
  (connection) has been obtained: when the transaction starts, the callback returns and
  the commit succeeds, \<^verbatim>\<open>transaction\<close> commits and returns the callback's result; when
  the callback throws, the adapter rolls back and then throws a \<^verbatim>\<open>DatabaseError\<close>
  whose message is \<^verbatim>\<open>Transaction failed: \<close> followed by the message of the callback's
  error (if the rollback itself throws, in either adapter, that error is what the caller
  gets, after the release); and on every
  way out, whatever the callback and the driver do, the last driver call releases the
  session (connection), and it is released once.
\<close>

theorem transaction_commit_rollback_release:
  "(startSession d = None \<longrightarrow>
      (startTransaction d = None \<and> commitTransaction d = None \<longrightarrow>
         transaction (Mongo d) (Inr v) opts =
           ([StartSession, StartTransaction, Callback, CommitTransaction, EndSession], Inr v)) \<and>
      (startTransaction d = None \<and> abortTransaction d = None \<longrightarrow>
         transaction (Mongo d) (Inl e) opts =
           ([StartSession, StartTransaction, Callback, AbortTransaction, EndSession],
            Inl (DatabaseError (''Transaction failed: '' @ message e)))) \<and>
      (startTransaction d = None \<and> abortTransaction d = Some e' \<longrightarrow>
         transaction (Mongo d) (Inl e) opts =
           ([StartSession, StartTransaction, Callback, AbortTransaction, EndSession], Inl e')) \<and>
      (\<exists>tr. fst (transaction (Mongo d) cb opts) = tr @ [EndSession] \<and>
            \<not> list_ex is_release tr)) \<and>
   (pool_connect p = None \<longrightarrow>
      (opts \<noteq> Null \<and> client_query p ''BEGIN'' = None \<and>
       client_query p ''SET TRANSACTION PRIORITY HIGH'' = None \<and>
       client_query p ''COMMIT'' = None \<longrightarrow>
         transaction (CockroachDB p) (Inr v) opts =
           ([PoolConnect, ClientQuery ''BEGIN''] @
            (if get_prop opts ''priority'' = Str ''high''
             then [ClientQuery ''SET TRANSACTION PRIORITY HIGH''] else []) @
            [Callback, ClientQuery ''COMMIT'', ClientRelease], Inr v)) \<and>
      (opts \<noteq> Null \<and> client_query p ''BEGIN'' = None \<and>
       client_query p ''SET TRANSACTION PRIORITY HIGH'' = None \<and>
       client_query p ''ROLLBACK'' = None \<longrightarrow>
         transaction (CockroachDB p) (Inl e) opts =
           ([PoolConnect, ClientQuery ''BEGIN''] @
            (if get_prop opts ''priority'' = Str ''high''
             then [ClientQuery ''SET TRANSACTION PRIORITY HIGH''] else []) @
            [Callback, ClientQuery ''ROLLBACK'', ClientRelease],
            Inl (DatabaseError (''Transaction failed: '' @ message e)))) \<and>
      (opts \<noteq> Null \<and> client_query p ''BEGIN'' = None \<and>
       client_query p ''SET TRANSACTION PRIORITY HIGH'' = None \<and>
       client_query p ''ROLLBACK'' = Some e' \<longrightarrow>
         transaction (CockroachDB p) (Inl e) opts =
           ([PoolConnect, ClientQuery ''BEGIN''] @
            (if get_prop opts ''priority'' = Str ''high''
             then [ClientQuery ''SET TRANSACTION PRIORITY HIGH''] else []) @
            [Callback, ClientQuery ''ROLLBACK'', ClientRelease], Inl e')) \<and>
      (\<exists>tr. fst (transaction (CockroachDB p) cb opts) = tr @ [ClientRelease] \<and>
            \<not> list_ex is_release tr))"
  using Mongo_commit[of d v opts] Mongo_rollback[of d e opts] Mongo_rollback_fails[of d e' e opts]
    Mongo_release[of d cb opts] Cockroach_commit[of p opts v] Cockroach_rollback[of p opts e]
    Cockroach_rollback_fails[of p opts e' e] Cockroach_release[of p cb opts]
  by blast

theorem transaction_commit_rollback_release_witness:
  "transaction (Mongo \<lparr>startSession = None, startTransaction = None, commitTransaction = None,
                        abortTransaction = None\<rparr>) (Inr (Str ''done'')) Undefined =
     ([StartSession, StartTransaction, Callback, CommitTransaction, EndSession],
      Inr (Str ''done'')) \<and>
   transaction (Mongo \<lparr>startSession = None, startTransaction = None, commitTransaction = None,
                        abortTransaction = None\<rparr>) (Inl (Error ''boom'')) Undefined =
     ([StartSession, StartTransaction, Callback, AbortTransaction, EndSession],
      Inl (DatabaseError ''Transaction failed: boom'')) \<and>
   transaction (CockroachDB \<lparr>pool_connect = None, client_query = \<lambda>sql. None\<rparr>)
       (Inl (Error ''boom'')) (Obj [(''priority'', Str ''high'')]) =
     ([PoolConnect, ClientQuery ''BEGIN'', ClientQuery ''SET TRANSACTION PRIORITY HIGH'',
       Callback, ClientQuery ''ROLLBACK'', ClientRelease],
      Inl (DatabaseError ''Transaction failed: boom'')) \<and>
   transaction (Mongo \<lparr>startSession = None, startTransaction = None, commitTransaction = None,
                        abortTransaction = Some (Error ''gone'')\<rparr>) (Inl (Error ''boom'')) Undefined =
     ([StartSession, StartTransaction, Callback, AbortTransaction, EndSession],
      Inl (Error ''gone'')) \<and>
   transaction (CockroachDB \<lparr>pool_connect = None,
        client_query = \<lambda>sql. if sql = ''ROLLBACK'' then Some (Error ''gone'') else None\<rparr>)
       (Inl (Error ''boom'')) Undefined =
     ([PoolConnect, ClientQuery ''BEGIN'', Callback, ClientQuery ''ROLLBACK'', ClientRelease],
      Inl (Error ''gone''))"
  using transaction_commit_rollback_release
    [of "\<lparr>startSession = None, startTransaction = None, commitTransaction = None,
          abortTransaction = None\<rparr>" "Str ''done''" Undefined "Error ''boom''" "Error ''x''"
        "Inr Null" "\<lparr>pool_connect = None, client_query = \<lambda>sql. None\<rparr>"]
    transaction_commit_rollback_release
    [of "\<lparr>startSession = None, startTransaction = None, commitTransaction = None,
          abortTransaction = None\<rparr>" "Str ''done''" "Obj [(''priority'', Str ''high'')]"
        "Error ''boom''" "Error ''x''"
        "Inr Null" "\<lparr>pool_connect = None, client_query = \<lambda>sql. None\<rparr>"]
    transaction_commit_rollback_release
    [of "\<lparr>startSession = None, startTransaction = None, commitTransaction = None,
          abortTransaction = Some (Error ''gone'')\<rparr>" "Str ''done''" Undefined
        "Error ''boom''" "Error ''gone''" "Inr Null"
        "\<lparr>pool_connect = None,
          client_query = \<lambda>sql. if sql = ''ROLLBACK'' then Some (Error ''gone'') else None\<rparr>"]
  by simp

text \<open>
  The claim as stated fails for other adapters. The Redis adapter, when the callback
  throws, makes no rollback and no release call before it throws; when the callback
  returns, it returns the reply of \<^verbatim>\<open>exec\<close>, not the callback's result. The base
  adapter throws without calling the callback.
\<close>

theorem redis_transaction_no_rollback_no_release:
  "transaction (Redis \<lparr>client_multi = None, multi_exec = Inr (Arr [Str ''OK''])\<rparr>)
       (Inl (Error ''boom'')) Undefined =
     ([ClientMulti, Callback], Inl (DatabaseError ''Redis transaction failed: boom'')) \<and>
   \<not> list_ex is_rollback [ClientMulti, Callback] \<and>
   \<not> list_ex is_release [ClientMulti, Callback] \<and>
   transaction (Redis \<lparr>client_multi = None, multi_exec = Inr (Arr [Str ''OK''])\<rparr>)
       (Inr (Str ''result'')) Undefined =
     ([ClientMulti, Callback, MultiExec], Inr (Arr [Str ''OK''])) \<and>
   transaction Base (Inr (Str ''result'')) Undefined = ([], Inl (Error ''Not implemented''))"
  by (simp add: RedisAdapter_transaction_def comp_defs is_rollback_def is_release_def)

section \<open>The connection cache\<close>

lemma connect_with_hit:
  "validator type config = Inr () \<Longrightarrow> map_of (connections s) (key_of type config) = Some b \<Longrightarrow>
   connect_with validator key_of s type config = (s, Inr b)"
  by (simp add: connect_with_def)

lemma connect_with_Inr:
  assumes "connect_with validator key_of s type config = (s1, Inr a)"
  shows "validator type config = Inr () \<and>
         (case map_of (connections s) (key_of type config) of
            Some b \<Rightarrow> a = b \<and> s1 = s
          | None \<Rightarrow> a = length (heap s) \<and>
              (\<exists>C. adapters s (toLowerCase type) = Some C \<and> heap s1 = heap s @ [(C, config)]) \<and>
              connections s1 = connections s @ [(key_of type config, a)] \<and>
              adapters s1 = adapters s)"
  using assms
  by (auto simp: connect_with_def createDatabase_cases Let_def split: sum.splits option.splits)

lemma connect_with_cached_unchanged:
  "map_of (connections s) (key_of type config) = Some b \<Longrightarrow>
   fst (connect_with validator key_of s type config) = s"
  by (auto simp: connect_with_def split: sum.splits)

lemma connect_with_again:
  assumes "connect_with validator key_of s type config = (s1, Inr a)"
  shows "connect_with validator key_of s1 type config = (s1, Inr a)"
proof -
  from connect_with_Inr[OF assms] have v: "validator type config = Inr ()" by simp
  show ?thesis
  proof (cases "map_of (connections s) (key_of type config)")
    case (Some b)
    with connect_with_Inr[OF assms] have "a = b" "s1 = s" by simp_all
    with Some v show ?thesis by (simp add: connect_with_hit)
  next
    case None
    with connect_with_Inr[OF assms]
    have "connections s1 = connections s @ [(key_of type config, a)]" by simp
    with None have "map_of (connections s1) (key_of type config) = Some a"
      by (simp add: map_add_def)
    with v show ?thesis by (simp add: connect_with_hit)
  qed
qed

lemma connect_ts_again:
  "connect_ts s type config = (s1, Inr a) \<Longrightarrow> connect_ts s1 type config = (s1, Inr a)"
  unfolding connect_ts_def by (rule connect_with_again)

text \<open>
  Claim C2. When \<^verbatim>\<open>connect(type, config)\<close> returns an instance, calling it again
  with the same arguments returns the same reference and changes nothing: no second
  instance is built. The first call built a new instance (the next free heap cell, of the
  class registered for the type, registered in the cache under the computed key) only when
  the cache had no entry for the key; with an entry, it returned that entry's instance.
  Whenever the cache has an entry for the key, \<^verbatim>\<open>connect\<close> leaves the facade and
  the heap as they were.
\<close>

theorem connect_twice_same_instance:
  "(connect s type config = (s1, Inr a) \<longrightarrow>
      connect s1 type config = (s1, Inr a) \<and>
      (case map_of (connections s) (connectionKey type config) of
         Some b \<Rightarrow> a = b \<and> s1 = s
       | None \<Rightarrow> a = length (heap s) \<and>
           (\<exists>C. adapters s (toLowerCase type) = Some C \<and> heap s1 = heap s @ [(C, config)]) \<and>
           connections s1 = connections s @ [(connectionKey type config, a)])) \<and>
   (map_of (connections s) (connectionKey type config) \<noteq> None \<longrightarrow>
      fst (connect s type config) = s)"
proof (intro conjI impI)
  assume c: "connect s type config = (s1, Inr a)"
  then show "connect s1 type config = (s1, Inr a)"
    unfolding connect_def by (rule connect_with_again)
  from c connect_with_Inr[of validate connectionKey s type config s1 a]
  show "case map_of (connections s) (connectionKey type config) of
         Some b \<Rightarrow> a = b \<and> s1 = s
       | None \<Rightarrow> a = length (heap s) \<and>
           (\<exists>C. adapters s (toLowerCase type) = Some C \<and> heap s1 = heap s @ [(C, config)]) \<and>
           connections s1 = connections s @ [(connectionKey type config, a)]"
    by (auto simp: connect_def split: option.splits)
next
  assume "map_of (connections s) (connectionKey type config) \<noteq> None"
  then show "fst (connect s type config) = s"
    unfolding connect_def by (auto intro: connect_with_cached_unchanged)
qed

theorem connect_twice_same_instance_witness:
  "connect initial_orm ''redis'' (Obj [(''host'', Str ''localhost''), (''port'', Num 6379)]) =
     (\<lparr>connections = [(''redis-undefined'', 0)], adapters = initial_adapters,
       heap = [(RedisAdapter, Obj [(''host'', Str ''localhost''), (''port'', Num 6379)])]\<rparr>, Inr 0) \<and>
   connect \<lparr>connections = [(''redis-undefined'', 0)], adapters = initial_adapters,
       heap = [(RedisAdapter, Obj [(''host'', Str ''localhost''), (''port'', Num 6379)])]\<rparr>
       ''redis'' (Obj [(''host'', Str ''localhost''), (''port'', Num 6379)]) =
     (\<lparr>connections = [(''redis-undefined'', 0)], adapters = initial_adapters,
       heap = [(RedisAdapter, Obj [(''host'', Str ''localhost''), (''port'', Num 6379)])]\<rparr>, Inr 0)"
proof -
  have first: "connect initial_orm ''redis'' (Obj [(''host'', Str ''localhost''), (''port'', Num 6379)]) =
     (\<lparr>connections = [(''redis-undefined'', 0)], adapters = initial_adapters,
       heap = [(RedisAdapter, Obj [(''host'', Str ''localhost''), (''port'', Num 6379)])]\<rparr>, Inr 0)"
    by (simp add: connect_def connect_with_def validate_def validate_with_def lower_redis requiredFields_def
        inherited_name_def connectionKey_def createDatabase_cases initial_orm_def
        initial_adapters_def)
  from connect_twice_same_instance
    [of initial_orm "''redis''" "Obj [(''host'', Str ''localhost''), (''port'', Num 6379)]"
        "\<lparr>connections = [(''redis-undefined'', 0)], adapters = initial_adapters,
          heap = [(RedisAdapter, Obj [(''host'', Str ''localhost''), (''port'', Num 6379)])]\<rparr>" 0]
    first
  show ?thesis by blast
qed

section \<open>The cache key\<close>

lemma split_at_hyphen:
  assumes "CHR ''-'' \<notin> set t" and "CHR ''-'' \<notin> set t'"
    and "t @ CHR ''-'' # x = t' @ CHR ''-'' # x'"
  shows "t = t' \<and> x = x'"
proof -
  have "takeWhile (\<lambda>c. c \<noteq> CHR ''-'') (t @ CHR ''-'' # x) = t"
    using assms(1) by (subst takeWhile_append2) auto
  moreover have "takeWhile (\<lambda>c. c \<noteq> CHR ''-'') (t' @ CHR ''-'' # x') = t'"
    using assms(2) by (subst takeWhile_append2) auto
  ultimately have "t = t'" using assms(3) by simp
  with assms(3) show ?thesis by simp
qed

text \<open>
  Claim C3, as amended. The cache key of \<^verbatim>\<open>connect\<close> is a function of the type
  string and of the config's \<^verbatim>\<open>database\<close> field alone: two calls that agree on both
  get the same key, whatever their other fields; and for type names without a hyphen (all
  built-in names), two keys are equal exactly when the type strings are equal and the
  database fields print to the same string.
\<close>

theorem connectionKey_type_and_database:
  "(type = type' \<and> get_prop config ''database'' = get_prop config' ''database'' \<longrightarrow>
      connectionKey type config = connectionKey type' config') \<and>
   (CHR ''-'' \<notin> set type \<and> CHR ''-'' \<notin> set type' \<longrightarrow>
      (connectionKey type config = connectionKey type' config') =
      (type = type' \<and>
       toString (get_prop config ''database'') = toString (get_prop config' ''database'')))"
  using split_at_hyphen[of type type'] by (auto simp: connectionKey_def)

theorem connectionKey_type_and_database_witness:
  "connectionKey ''postgres'' (Obj [(''host'', Str ''db1''), (''database'', Str ''app'')]) =
   connectionKey ''postgres'' (Obj [(''database'', Str ''app''), (''host'', Str ''db2'')]) \<and>
   connectionKey ''postgres'' (Obj [(''host'', Str ''db1''), (''database'', Str ''app'')]) \<noteq>
   connectionKey ''postgres'' (Obj [(''host'', Str ''db1''), (''database'', Str ''logs'')])"
  using connectionKey_type_and_database
    [of "''postgres''" "''postgres''" "Obj [(''host'', Str ''db1''), (''database'', Str ''app'')]"
        "Obj [(''database'', Str ''app''), (''host'', Str ''db2'')]"]
    connectionKey_type_and_database
    [of "''postgres''" "''postgres''" "Obj [(''host'', Str ''db1''), (''database'', Str ''app'')]"
        "Obj [(''host'', Str ''db1''), (''database'', Str ''logs'')]"]
  by simp

text \<open>
  The claim as stated fails: the same database name on two hosts gives one key, so the
  second \<^verbatim>\<open>connect\<close> returns the adapter built for the first host; two redis
  configs (which have no database field) always share the key \<^verbatim>\<open>redis-undefined\<close>;
  and the key of \<^verbatim>\<open>index.ts\<close> collides on the first pair as well.
\<close>

theorem connectionKey_collisions:
  "connectionKey ''postgres'' (Obj [(''host'', Str ''db1.example''), (''port'', Num 5432),
       (''database'', Str ''app''), (''user'', Str ''u''), (''password'', Str ''p'')]) =
   connectionKey ''postgres'' (Obj [(''host'', Str ''db2.example''), (''port'', Num 5432),
       (''database'', Str ''app''), (''user'', Str ''u''), (''password'', Str ''p'')]) \<and>
   connectionKey ''redis'' (Obj [(''host'', Str ''cache1''), (''port'', Num 6379)]) =
   connectionKey ''redis'' (Obj [(''host'', Str ''cache2''), (''port'', Num 6380)]) \<and>
   connect (fst (connect initial_orm ''postgres'' (Obj [(''host'', Str ''db1.example''), (''port'', Num 5432),
       (''database'', Str ''app''), (''user'', Str ''u''), (''password'', Str ''p'')])))
     ''postgres'' (Obj [(''host'', Str ''db2.example''), (''port'', Num 5432),
       (''database'', Str ''app''), (''user'', Str ''u''), (''password'', Str ''p'')]) =
   (\<lparr>connections = [(''postgres-app'', 0)], adapters = initial_adapters,
      heap = [(PostgresAdapter, Obj [(''host'', Str ''db1.example''), (''port'', Num 5432),
       (''database'', Str ''app''), (''user'', Str ''u''), (''password'', Str ''p'')])]\<rparr>, Inr 0) \<and>
   connectionKey_ts ''postgres'' (Obj [(''host'', Str ''db1.example''), (''port'', Num 5432),
       (''database'', Str ''app''), (''user'', Str ''u''), (''password'', Str ''p'')]) =
   connectionKey_ts ''postgres'' (Obj [(''host'', Str ''db2.example''), (''port'', Num 5432),
       (''database'', Str ''app''), (''user'', Str ''u''), (''password'', Str ''p'')])"
  by (simp add: connectionKey_ts_def js_or_def truthy_def connect_def connect_with_def validate_def validate_with_def lower_postgres requiredFields_def
        inherited_name_def connectionKey_def createDatabase_def new_def initial_orm_def
        initial_adapters_def)

section \<open>Unknown operators\<close>














text \<open>
  A field whose value is an empty object is an operator map with no entry: it contributes
  no condition and no value, in both compilers. An array is an object too: an empty one has
  no entry, and the indices of a non-empty one are read as operators, which are unknown.
\<close>

lemma empty_operator_map_has_no_condition:
  "where_fields [(''age'', Obj [])] ([], [], 1) = Inr ([], [], 1) \<and>
   buildWhereClause [(''age'', Obj [])] = Inr ([], []) \<and>
   filter_fields [(''age'', Obj [])] [] = Inr [] \<and>
   buildFilterExpression [(''age'', Obj [])] = Inr [Text ''true''] \<and>
   predicate_conditions [(''age'', Obj [])] = [] \<and>
   buildWhereClause [(''tags'', Arr [])] = Inr ([], []) \<and>
   buildWhereClause [(''tags'', Arr [Str ''a''])] = Inl (Error ''Unknown operator: 0'')"
  by code_simp


section \<open>Values and query text\<close>

lemma buildOperatorCondition_text:
  "map_sum id fst (buildOperatorCondition key operator v n) =
   map_sum id fst (buildOperatorCondition key operator v' n)"
  by (simp add: buildOperatorCondition_def)

lemma where_operators_text:
  "map fst es = map fst es' \<Longrightarrow>
   without_values (where_operators key es (cs, vs, n)) = without_values (where_operators key es' (cs, vs', n))"
proof (induction es arbitrary: es' cs vs vs' n)
  case Nil
  then show ?case by (simp add: without_values_def)
next
  case (Cons a es)
  obtain operator operand where a: "a = (operator, operand)" by (cases a)
  from Cons.prems a obtain operand' es1 where es': "es' = (operator, operand') # es1"
    and m: "map fst es = map fst es1" by (cases es') auto
  show ?case
  proof (cases "buildOperatorCondition key operator operand n")
    case (Inl e)
    with buildOperatorCondition_text[of key operator operand n operand']
    have "buildOperatorCondition key operator operand' n = Inl e"
      by (cases "buildOperatorCondition key operator operand' n") auto
    with Inl show ?thesis by (simp add: a es' without_values_def)
  next
    case (Inr p)
    obtain c w where p: "p = (c, w)" by (cases p)
    with Inr buildOperatorCondition_text[of key operator operand n operand']
    obtain w' where r': "buildOperatorCondition key operator operand' n = Inr (c, w')"
      by (cases "buildOperatorCondition key operator operand' n") auto
    from Cons.IH[OF m, of "cs @ [c]" "vs @ [w]" "n + 1" "vs' @ [w']"] Inr p r'
    show ?thesis by (simp add: a es')
  qed
qed

lemma without_values_Inl: "without_values r = without_values r' \<Longrightarrow> r = Inl e \<Longrightarrow> r' = Inl e"
  by (cases r') (auto simp: without_values_def)

lemma without_values_Inr:
  "without_values r = without_values r' \<Longrightarrow> r = Inr (cs, vs, n) \<Longrightarrow> \<exists>vs'. r' = Inr (cs, vs', n)"
  by (cases r') (auto simp: without_values_def)

lemma where_fields_text:
  "shape query = shape query' \<Longrightarrow>
   without_values (where_fields query (cs, vs, n)) = without_values (where_fields query' (cs, vs', n))"
proof (induction query arbitrary: query' cs vs vs' n)
  case Nil
  then show ?case by (simp add: shape_def without_values_def)
next
  case (Cons a query)
  obtain key v where a: "a = (key, v)" by (cases a)
  from Cons.prems a obtain v' q1 where q': "query' = (key, v') # q1"
    and s: "shape query = shape q1"
    and h: "(if is_operator_map v then Some (map fst (object_entries v)) else None) =
            (if is_operator_map v' then Some (map fst (object_entries v')) else None)"
    by (cases query') (auto simp: shape_def)
  show ?case
  proof (cases "is_operator_map v")
    case False
    with h have f': "\<not> is_operator_map v'" by (auto split: if_splits)
    from Cons.IH[OF s, of "cs @ [key @ '' = '' @ placeholder n]" "vs @ [v]" "n + 1" "vs' @ [v']"]
      False f'
    show ?thesis by (simp add: a q')
  next
    case True
    with h have t': "is_operator_map v'"
      and m: "map fst (object_entries v) = map fst (object_entries v')"
      by (auto split: if_splits)
    note w = where_operators_text[OF m, of key cs vs n vs']
    show ?thesis
    proof (cases "where_operators key (object_entries v) (cs, vs, n)")
      case (Inl e)
      from without_values_Inl[OF w Inl] Inl True t' show ?thesis by (simp add: a q')
    next
      case (Inr acc)
      obtain c1 v1 n1 where acc: "acc = (c1, v1, n1)" by (cases acc)
      from without_values_Inr[OF w] Inr acc
      obtain v1' where r': "where_operators key (object_entries v') (cs, vs', n) = Inr (c1, v1', n1)"
        by blast
      from Cons.IH[OF s, of c1 v1 n1 v1'] Inr acc r' True t'
      show ?thesis by (simp add: a q')
    qed
  qed
qed

lemma buildWhereClause_text:
  assumes "shape query = shape query'"
  shows "map_sum id fst (buildWhereClause query) = map_sum id fst (buildWhereClause query')"
proof -
  note w = where_fields_text[OF assms, of "[]" "[]" 1 "[]"]
  show ?thesis
  proof (cases "where_fields query ([], [], 1)")
    case (Inl e)
    from without_values_Inl[OF w Inl] Inl show ?thesis by (simp add: buildWhereClause_def)
  next
    case (Inr acc)
    obtain c1 v1 n1 where acc: "acc = (c1, v1, n1)" by (cases acc)
    from without_values_Inr[OF w] Inr acc
    obtain v1' where "where_fields query' ([], [], 1) = Inr (c1, v1', n1)" by blast
    with Inr acc show ?thesis by (simp add: buildWhereClause_def)
  qed
qed

lemma buildWhereClause_values:
  assumes "buildWhereClause query = Inr (sql, vals)"
  shows "vals = operands query"
proof (cases "unknown_operators sql_operators query")
  case Nil
  from where_fields_known[OF Nil] obtain conditions where
    "where_fields query ([], [], 1) =
       Inr (conditions, operands query, 1 + length (predicate_conditions query))"
    by blast
  with assms show ?thesis
    by (simp add: buildWhereClause_def)
next
  case (Cons op rest)
  from where_fields_unknown[OF Cons, of "([], [], 1)"] assms show ?thesis
    by (simp add: buildWhereClause_def)
qed

lemma buildSelectQuery_text:
  assumes "shape query = shape query'"
  shows "map_sum id fst (buildSelectQuery t query sel ob lim off fu) =
         map_sum id fst (buildSelectQuery t query' sel ob lim off fu)"
proof (cases "buildWhereClause query")
  case (Inl e)
  with buildWhereClause_text[OF assms] have "buildWhereClause query' = Inl e"
    by (cases "buildWhereClause query'") auto
  with Inl show ?thesis by (simp add: buildSelectQuery_def)
next
  case (Inr p)
  obtain c vs where p: "p = (c, vs)" by (cases p)
  with Inr buildWhereClause_text[OF assms]
  obtain vs' where "buildWhereClause query' = Inr (c, vs')"
    by (cases "buildWhereClause query'") auto
  with Inr p show ?thesis by (simp add: buildSelectQuery_def)
qed

lemma buildSelectQuery_values:
  "buildSelectQuery t query sel ob lim off fu = Inr (sql, vals) \<Longrightarrow> vals = operands query"
  by (auto simp: buildSelectQuery_def split: sum.splits dest: buildWhereClause_values)

lemma buildWhereClause_bindings:
  assumes "buildWhereClause query = Inr (sql, vals)"
  shows "\<exists>conditions.
           sql = join '' AND '' conditions \<and>
           length conditions = length vals \<and>
           length (predicate_conditions query) = length vals \<and>
           (\<forall>i<length vals. \<exists>key operator.
              predicate_conditions query ! i = (key, operator, vals ! i) \<and>
              Some (conditions ! i) = sql_condition key operator (i + 1))"
proof (cases "unknown_operators sql_operators query")
  case Nil
  let ?pcs = "predicate_conditions query"
  from where_fields_known[OF Nil] obtain conditions where
    w: "where_fields query ([], [], 1) = Inr (conditions, operands query, 1 + length ?pcs)" and
    m: "map Some conditions =
          map (\<lambda>(n, key, operator, operand). sql_condition key operator n) (numbered_from 1 ?pcs)"
    by blast
  from w assms have sql: "sql = join '' AND '' conditions" and vals: "vals = operands query"
    by (auto simp: buildWhereClause_def)
  from m have l: "length conditions = length ?pcs"
    by (metis length_map length_numbered_from)
  have lv: "length vals = length ?pcs"
    by (simp add: vals length_operands)
  have "\<exists>key operator. ?pcs ! i = (key, operator, vals ! i) \<and>
          Some (conditions ! i) = sql_condition key operator (i + 1)" if i: "i < length vals" for i
  proof -
    obtain key operator operand where p: "?pcs ! i = (key, operator, operand)"
      by (cases "?pcs ! i")
    from i lv have i': "i < length ?pcs" by simp
    from nth_operands[OF i' p] have "vals ! i = operand" by (simp add: vals)
    moreover from sql_conditions_nth[OF m i' p]
    have "Some (conditions ! i) = sql_condition key operator (i + 1)" by simp
    ultimately show ?thesis using p by blast
  qed
  with sql l lv show ?thesis by auto
next
  case (Cons op rest)
  from where_fields_unknown[OF Cons, of "([], [], 1)"] assms show ?thesis
    by (simp add: buildWhereClause_def)
qed

lemma buildSelectQuery_where:
  assumes "buildSelectQuery t query sel ob lim off fu = Inr (sql', vals')"
  shows "\<exists>sql. buildWhereClause query = Inr (sql, vals') \<and>
           (sql \<noteq> [] \<longrightarrow> sublist (''WHERE '' @ sql) sql')"
proof (cases "buildWhereClause query")
  case (Inl e)
  with assms show ?thesis by (simp add: buildSelectQuery_def)
next
  case (Inr p)
  obtain sql vals where p: "p = (sql, vals)" by (cases p)
  define before where "before = nl @ replicate 12 CHR '' '' @ ''SELECT '' @ toString sel @
               nl @ replicate 12 CHR '' '' @ ''FROM '' @ t @
               nl @ replicate 12 CHR '' ''"
  define after where "after = nl @ replicate 8 CHR '' '' @
               (if truthy ob
                then '' ORDER BY '' @ join '', '' (map orderClause (object_entries ob))
                else []) @
               (if truthy lim then '' LIMIT '' @ toString lim else []) @
               (if truthy off then '' OFFSET '' @ toString off else []) @
               (if truthy fu then '' FOR UPDATE'' else [])"
  from assms Inr p have v: "vals' = vals" and
    s: "sql' = before @ (if sql \<noteq> [] then ''WHERE '' @ sql else []) @ after"
    by (simp_all add: buildSelectQuery_def before_def after_def)
  have "sublist (''WHERE '' @ sql) sql'" if "sql \<noteq> []"
  proof -
    from that have "sql' = before @ (''WHERE '' @ sql) @ after" by (simp add: s)
    then show ?thesis by (simp only: sublist_appendI)
  qed
  with Inr p v show ?thesis by simp
qed

text \<open>
  Claim C5, as amended. The operand values of a predicate reach the database only as
  bindings: the WHERE text, and with it the text of the SELECT statement built with the
  same other arguments, is the same for any two predicates with the same field names and
  operator keys, whatever their operand values (and so is the error, when compilation
  fails). The bindings are the operand values in the order of their placeholders: the
  WHERE text is the conjunction of one condition per binding; the condition of the binding
  at index \<open>i\<close>, counted from 0, is the native form of its operator on its field, written
  with the parameter \<^verbatim>\<open>$\<close>\<open>(i + 1)\<close>, and that binding is the operand the predicate gives
  for this field and this operator; the parameters of two different positions are
  different texts. The SELECT statement has the bindings of its WHERE clause and contains
  the text of that clause. A schema default is not a binding: the default of a string or
  text column is put between single quotes into the text of the column definition.
\<close>

theorem where_clause_binds_operands:
  "(shape query = shape query' \<longrightarrow>
      map_sum id fst (buildWhereClause query) = map_sum id fst (buildWhereClause query') \<and>
      map_sum id fst (buildSelectQuery t query sel ob lim off fu) =
        map_sum id fst (buildSelectQuery t query' sel ob lim off fu)) \<and>
   (buildWhereClause query = Inr (sql, vals) \<longrightarrow>
      vals = operands query \<and>
      (\<exists>conditions.
         sql = join '' AND '' conditions \<and>
         length conditions = length vals \<and>
         length (predicate_conditions query) = length vals \<and>
         (\<forall>i<length vals. \<exists>key operator.
            predicate_conditions query ! i = (key, operator, vals ! i) \<and>
            Some (conditions ! i) = sql_condition key operator (i + 1)))) \<and>
   (buildSelectQuery t query sel ob lim off fu = Inr (sql', vals') \<longrightarrow>
      vals' = operands query \<and>
      (\<exists>sql. buildWhereClause query = Inr (sql, vals') \<and>
         (sql \<noteq> [] \<longrightarrow> sublist (''WHERE '' @ sql) sql'))) \<and>
   ((placeholder m = placeholder n) = (m = n)) \<and>
   (type = Str ''string'' \<or> type = Str ''text'' \<longrightarrow>
      formatDefaultValue stringify v type = Inr (Str ([CHR 0x27] @ toString v @ [CHR 0x27])))"
proof (intro conjI impI)
  assume "shape query = shape query'"
  then show "map_sum id fst (buildWhereClause query) = map_sum id fst (buildWhereClause query')"
    by (rule buildWhereClause_text)
next
  assume "shape query = shape query'"
  then show "map_sum id fst (buildSelectQuery t query sel ob lim off fu) =
        map_sum id fst (buildSelectQuery t query' sel ob lim off fu)"
    by (rule buildSelectQuery_text)
next
  assume "buildWhereClause query = Inr (sql, vals)"
  then show "vals = operands query" by (rule buildWhereClause_values)
next
  assume "buildWhereClause query = Inr (sql, vals)"
  then show "\<exists>conditions.
         sql = join '' AND '' conditions \<and>
         length conditions = length vals \<and>
         length (predicate_conditions query) = length vals \<and>
         (\<forall>i<length vals. \<exists>key operator.
            predicate_conditions query ! i = (key, operator, vals ! i) \<and>
            Some (conditions ! i) = sql_condition key operator (i + 1))"
    by (rule buildWhereClause_bindings)
next
  assume "buildSelectQuery t query sel ob lim off fu = Inr (sql', vals')"
  then show "vals' = operands query" by (rule buildSelectQuery_values)
next
  assume "buildSelectQuery t query sel ob lim off fu = Inr (sql', vals')"
  then show "\<exists>sql. buildWhereClause query = Inr (sql, vals') \<and>
         (sql \<noteq> [] \<longrightarrow> sublist (''WHERE '' @ sql) sql')"
    by (rule buildSelectQuery_where)
next
  show "(placeholder m = placeholder n) = (m = n)" by (rule placeholder_inject)
next
  assume "type = Str ''string'' \<or> type = Str ''text''"
  then show "formatDefaultValue stringify v type =
      Inr (Str ([CHR 0x27] @ toString v @ [CHR 0x27]))"
    by (auto simp: formatDefaultValue_def quoted_def)
qed

theorem where_clause_binds_operands_witness:
  "buildWhereClause
     [(''age'', Obj [(''$gte'', Num 18), (''$lt'', Num 65)]), (''name'', Str ''x OR 1=1'')] =
     Inr (''age >= $1 AND age < $2 AND name = $3'', [Num 18, Num 65, Str ''x OR 1=1'']) \<and>
   map_sum id fst (buildWhereClause
     [(''age'', Obj [(''$gte'', Num 0), (''$lt'', Num 1)]), (''name'', Str ''y'')]) =
     Inr ''age >= $1 AND age < $2 AND name = $3'' \<and>
   predicate_conditions
     [(''age'', Obj [(''$gte'', Num 18), (''$lt'', Num 65)]), (''name'', Str ''x OR 1=1'')] =
     [(''age'', ''$gte'', Num 18), (''age'', ''$lt'', Num 65), (''name'', ''$eq'', Str ''x OR 1=1'')] \<and>
   (\<exists>conditions.
      ''age >= $1 AND age < $2 AND name = $3'' = join '' AND '' conditions \<and>
      length conditions = 3 \<and>
      conditions ! 0 = ''age >= $1'' \<and>
      conditions ! 1 = ''age < $2'' \<and>
      conditions ! 2 = ''name = $3'') \<and>
   (\<exists>sql'. buildSelectQuery ''users''
        [(''age'', Obj [(''$gte'', Num 18), (''$lt'', Num 65)]), (''name'', Str ''x OR 1=1'')]
        (Str ''*'') Undefined (Num 10) Undefined Undefined =
        Inr (sql', [Num 18, Num 65, Str ''x OR 1=1'']) \<and>
      sublist ''WHERE age >= $1 AND age < $2 AND name = $3'' sql') \<and>
   placeholder 1 \<noteq> placeholder 2 \<and>
   formatDefaultValue (\<lambda>v. None) (Str ''x'') (Str ''string'') =
     Inr (Str [CHR 0x27, CHR ''x'', CHR 0x27])"
proof -
  let ?q = "[(''age'', Obj [(''$gte'', Num 18), (''$lt'', Num 65)]), (''name'', Str ''x OR 1=1'')]"
  let ?q' = "[(''age'', Obj [(''$gte'', Num 0), (''$lt'', Num 1)]), (''name'', Str ''y'')]"
  let ?S = "''age >= $1 AND age < $2 AND name = $3''"
  let ?V = "[Num 18, Num 65, Str ''x OR 1=1'']"
  have w: "buildWhereClause ?q = Inr (?S, ?V)"
    by code_simp
  have s: "shape ?q = shape ?q'"
    by code_simp
  have pcs: "predicate_conditions ?q =
      [(''age'', ''$gte'', Num 18), (''age'', ''$lt'', Num 65), (''name'', ''$eq'', Str ''x OR 1=1'')]"
    by code_simp
  have sc: "sql_condition ''age'' ''$gte'' (0 + 1) = Some ''age >= $1''"
    "sql_condition ''age'' ''$lt'' (1 + 1) = Some ''age < $2''"
    "sql_condition ''name'' ''$eq'' (2 + 1) = Some ''name = $3''"
    by code_simp+
  obtain sql' where q: "buildSelectQuery ''users'' ?q (Str ''*'') Undefined (Num 10) Undefined
      Undefined = Inr (sql', ?V)"
    using w by (simp add: buildSelectQuery_def)
  have ts: "toString (Str ''x'') = ''x''"
    by code_simp
  note inst = where_clause_binds_operands[where query = ?q and query' = ?q' and sql = ?S
      and vals = ?V and t = "''users''" and sel = "Str ''*''" and ob = Undefined
      and lim = "Num 10" and off = Undefined and fu = Undefined and sql' = sql' and vals' = ?V
      and m = 1 and n = 2 and type = "Str ''string''" and v = "Str ''x''"
      and stringify = "\<lambda>v. None"]
  have c2: "map_sum id fst (buildWhereClause ?q') = Inr ?S"
  proof -
    from inst s have "map_sum id fst (buildWhereClause ?q) = map_sum id fst (buildWhereClause ?q')"
      by blast
    then show ?thesis unfolding w by simp
  qed
  have b: "\<exists>conditions.
         ?S = join '' AND '' conditions \<and>
         length conditions = length ?V \<and>
         length (predicate_conditions ?q) = length ?V \<and>
         (\<forall>i<length ?V. \<exists>key operator.
            predicate_conditions ?q ! i = (key, operator, ?V ! i) \<and>
            Some (conditions ! i) = sql_condition key operator (i + 1))"
    using inst w by blast
  then obtain conditions where
    j: "?S = join '' AND '' conditions" and l: "length conditions = length ?V" and
    a: "\<And>i. i < length ?V \<Longrightarrow> \<exists>key operator.
            predicate_conditions ?q ! i = (key, operator, ?V ! i) \<and>
            Some (conditions ! i) = sql_condition key operator (i + 1)"
    by blast
  from a[of 0] have "Some (conditions ! 0) = sql_condition ''age'' ''$gte'' (0 + 1)"
    unfolding pcs by auto
  then have n0: "conditions ! 0 = ''age >= $1''" unfolding sc by simp
  from a[of 1] have "Some (conditions ! 1) = sql_condition ''age'' ''$lt'' (1 + 1)"
    unfolding pcs by auto
  then have n1: "conditions ! 1 = ''age < $2''" unfolding sc by simp
  from a[of 2] have "Some (conditions ! 2) = sql_condition ''name'' ''$eq'' (2 + 1)"
    unfolding pcs by auto
  then have n2: "conditions ! 2 = ''name = $3''" unfolding sc by simp
  from l have l3: "length conditions = 3" by simp
  have c3: "\<exists>conditions.
      ?S = join '' AND '' conditions \<and> length conditions = 3 \<and>
      conditions ! 0 = ''age >= $1'' \<and> conditions ! 1 = ''age < $2'' \<and>
      conditions ! 2 = ''name = $3''"
    using j l3 n0 n1 n2 by blast
  have c4: "sublist (''WHERE '' @ ?S) sql'"
  proof -
    from inst q obtain sql where e: "buildWhereClause ?q = Inr (sql, ?V)"
      and i: "sql \<noteq> [] \<longrightarrow> sublist (''WHERE '' @ sql) sql'"
      by blast
    from e have "sql = ?S" unfolding w by simp
    with i show ?thesis by auto
  qed
  then have c4': "sublist ''WHERE age >= $1 AND age < $2 AND name = $3'' sql'" by simp
  have c5: "placeholder 1 \<noteq> placeholder 2"
    using inst by simp
  have c6: "formatDefaultValue (\<lambda>v. None) (Str ''x'') (Str ''string'') =
     Inr (Str [CHR 0x27, CHR ''x'', CHR 0x27])"
    using inst unfolding ts by simp
  from w c2 pcs c3 q c4' c5 c6 show ?thesis by blast
qed

text \<open>
  The claim as stated fails: a limit comes out as part of the query text and not as a
  binding, and so does a string default in a column definition.
\<close>

theorem limit_and_default_are_spliced:
  "buildSelectQuery ''users'' [(''age'', Obj [(''$gt'', Num 18)])] (Str ''*'') Undefined
       (Str ''1; DROP TABLE users'') Undefined Undefined =
     Inr (nl @ ''            SELECT *'' @ nl @ ''            FROM users'' @ nl @
          ''            WHERE age > $1'' @ nl @ ''         LIMIT 1; DROP TABLE users'',
          [Num 18]) \<and>
   formatDefaultValue (\<lambda>v. None) (Str ''x'') (Str ''string'') =
     Inr (Str [CHR 0x27, CHR ''x'', CHR 0x27])"
  by code_simp

section \<open>closeAll\<close>

lemma first_rejection_None:
  "first_rejection ps = None \<longleftrightarrow> (\<forall>p \<in> set ps. snd p = None)"
  by (induction ps rule: first_rejection.induct) (auto split: option.splits)

lemma first_rejection_mem:
  "first_rejection ps = Some (t, e) \<Longrightarrow> (t, Some e) \<in> set ps"
  by (induction ps arbitrary: t e rule: first_rejection.induct)
     (auto split: option.splits if_splits)

lemma first_rejection_least:
  "first_rejection ps = Some (t, e) \<Longrightarrow> (t', Some e') \<in> set ps \<Longrightarrow> t \<le> t'"
proof (induction ps arbitrary: t e rule: first_rejection.induct)
  case 1
  then show ?case by simp
next
  case (2 t0 ps)
  then show ?case by auto
next
  case (3 t0 e0 ps)
  show ?case
  proof (cases "first_rejection ps")
    case None
    with "3.prems" have "t = t0" by simp
    moreover from None "3.prems"(2) have "(t', Some e') = (t0, Some e0)"
      by (auto simp: first_rejection_None)
    ultimately show ?thesis by simp
  next
    case (Some p)
    obtain t1 e1 where p: "p = (t1, e1)" by (cases p)
    from "3.IH"[of t1 e1] Some p
    have le: "(t', Some e') \<in> set ps \<Longrightarrow> t1 \<le> t'" by simp
    from "3.prems"(1) Some p have t: "t = (if t1 < t0 then t1 else t0)"
      by (auto split: if_splits)
    from "3.prems"(2) have "t' = t0 \<or> (t', Some e') \<in> set ps" by auto
    then show ?thesis using le t by (auto split: if_splits)
  qed
qed

lemma fold_max_ge: "(m::nat) \<le> fold max xs m"
  by (induction xs arbitrary: m) (auto intro: order_trans[OF max.cobounded2])

lemma fold_max_upper: "x \<in> set xs \<Longrightarrow> (x::nat) \<le> fold max xs m"
proof (induction xs arbitrary: m)
  case Nil
  then show ?case by simp
next
  case (Cons y ys)
  then show ?case
    using fold_max_ge[of "max y m" ys] by auto
qed

text \<open>
  Claim C6, as amended. \<^verbatim>\<open>closeAll()\<close> calls \<^verbatim>\<open>close()\<close> on every cached
  instance, in cache order, before it waits for any of them. When every close succeeds,
  \<^verbatim>\<open>closeAll\<close> has waited for all of them, succeeds and clears the cache. When some
  close fails, \<^verbatim>\<open>closeAll\<close> settles with the first rejection: it fails with the
  error of one failed close (no later rejection is earlier than it), and the cache is
  left as it was.
\<close>

theorem closeAll_first_rejection:
  "closed (closeAll env s) = map snd (connections s) \<and>
   ((\<forall>r \<in> set (map snd (connections s)). snd (env r) = None) \<longrightarrow>
      outcome (closeAll env s) = Inr () \<and>
      after (closeAll env s) = s\<lparr>connections := []\<rparr> \<and>
      (\<forall>r \<in> set (map snd (connections s)). fst (env r) \<le> settled_at (closeAll env s))) \<and>
   ((\<exists>r \<in> set (map snd (connections s)). snd (env r) \<noteq> None) \<longrightarrow>
      after (closeAll env s) = s \<and>
      (\<exists>r \<in> set (map snd (connections s)). \<exists>e.
          env r = (settled_at (closeAll env s), Some e) \<and>
          outcome (closeAll env s) = Inl e \<and>
          (\<forall>r' \<in> set (map snd (connections s)).
              snd (env r') \<noteq> None \<longrightarrow> settled_at (closeAll env s) \<le> fst (env r'))))"
proof -
  let ?ps = "map (\<lambda>(key, connection). env connection) (connections s)"
  have set_ps: "set ?ps = env ` set (map snd (connections s))"
    by (simp add: case_prod_beta image_image)
  have c: "closed (closeAll env s) = map snd (connections s)"
    by (simp add: closeAll_def Let_def split: prod.splits sum.splits)
  have ok: "outcome (closeAll env s) = Inr () \<and> after (closeAll env s) = s\<lparr>connections := []\<rparr> \<and>
      (\<forall>r \<in> set (map snd (connections s)). fst (env r) \<le> settled_at (closeAll env s))"
    if "\<forall>r \<in> set (map snd (connections s)). snd (env r) = None"
  proof -
    from that set_ps have "first_rejection ?ps = None"
      by (simp add: first_rejection_None)
    then have pa: "promise_all ?ps = (fold max (map fst ?ps) 0, Inr ())"
      by (simp add: promise_all_def)
    have "fst (env r) \<le> fold max (map fst ?ps) 0" if "r \<in> set (map snd (connections s))" for r
    proof -
      from that have "env r \<in> set ?ps" unfolding set_ps by (rule imageI)
      then have "fst (env r) \<in> set (map fst ?ps)" by (metis image_eqI set_map)
      then show ?thesis by (rule fold_max_upper)
    qed
    with pa show ?thesis by (simp add: closeAll_def Let_def)
  qed
  have bad: "after (closeAll env s) = s \<and>
      (\<exists>r \<in> set (map snd (connections s)). \<exists>e.
          env r = (settled_at (closeAll env s), Some e) \<and>
          outcome (closeAll env s) = Inl e \<and>
          (\<forall>r' \<in> set (map snd (connections s)).
              snd (env r') \<noteq> None \<longrightarrow> settled_at (closeAll env s) \<le> fst (env r')))"
    if "\<exists>r \<in> set (map snd (connections s)). snd (env r) \<noteq> None"
  proof -
    from that set_ps have "first_rejection ?ps \<noteq> None"
      by (auto simp: first_rejection_None)
    then obtain t e where fr: "first_rejection ?ps = Some (t, e)" by auto
    then have pa: "promise_all ?ps = (t, Inl e)" by (simp add: promise_all_def)
    from first_rejection_mem[OF fr] have "(t, Some e) \<in> env ` set (map snd (connections s))"
      unfolding set_ps .
    then obtain r where r: "r \<in> set (map snd (connections s))" "env r = (t, Some e)"
      by (metis imageE)
    have least: "t \<le> fst (env r')"
      if "r' \<in> set (map snd (connections s))" "snd (env r') \<noteq> None" for r'
    proof -
      from that(2) obtain e' where "env r' = (fst (env r'), Some e')"
        by (cases "env r'") auto
      with that(1) have "(fst (env r'), Some e') \<in> env ` set (map snd (connections s))"
        by (metis imageI)
      then have "(fst (env r'), Some e') \<in> set ?ps" unfolding set_ps .
      with fr show ?thesis by (rule first_rejection_least)
    qed
    from pa have "after (closeAll env s) = s" "settled_at (closeAll env s) = t"
      "outcome (closeAll env s) = Inl e"
      by (simp_all add: closeAll_def Let_def)
    with r least show ?thesis by auto
  qed
  from c ok bad show ?thesis by blast
qed

theorem closeAll_first_rejection_witness:
  "outcome (closeAll (closing_of [(0, (3, None)), (1, (4, None))])
      \<lparr>connections = [(''postgres-app'', 0), (''redis-undefined'', 1)],
        adapters = initial_adapters, heap = []\<rparr>) = Inr () \<and>
   after (closeAll (closing_of [(0, (3, None)), (1, (4, None))])
      \<lparr>connections = [(''postgres-app'', 0), (''redis-undefined'', 1)],
        adapters = initial_adapters, heap = []\<rparr>) =
     \<lparr>connections = [], adapters = initial_adapters, heap = []\<rparr> \<and>
   after (closeAll (closing_of [(0, (3, None)), (1, (1, Some (Error ''redis down'')))])
      \<lparr>connections = [(''postgres-app'', 0), (''redis-undefined'', 1)],
        adapters = initial_adapters, heap = []\<rparr>) =
     \<lparr>connections = [(''postgres-app'', 0), (''redis-undefined'', 1)],
        adapters = initial_adapters, heap = []\<rparr>"
  using closeAll_first_rejection
      [of "closing_of [(0, (3, None)), (1, (4, None))]"
          "\<lparr>connections = [(''postgres-app'', 0), (''redis-undefined'', 1)],
            adapters = initial_adapters, heap = []\<rparr>"]
    closeAll_first_rejection
      [of "closing_of [(0, (3, None)), (1, (1, Some (Error ''redis down'')))]"
          "\<lparr>connections = [(''postgres-app'', 0), (''redis-undefined'', 1)],
            adapters = initial_adapters, heap = []\<rparr>"]
  by (simp add: closing_of_def)

text \<open>
  The claim as stated fails. With two cached instances whose closes both fail, the first
  at tick 1 and the second at tick 5, \<^verbatim>\<open>closeAll\<close> settles at tick 1 (before the
  second close has settled), raises the first error alone (the second is not part of it),
  and does not clear the cache.
\<close>

theorem closeAll_raises_one_error_and_keeps_cache:
  "closeAll (closing_of [(0, (1, Some (Error ''postgres down''))), (1, (5, Some (Error ''redis down'')))])
      \<lparr>connections = [(''postgres-app'', 0), (''redis-undefined'', 1)],
        adapters = initial_adapters, heap = []\<rparr> =
    \<lparr>after = \<lparr>connections = [(''postgres-app'', 0), (''redis-undefined'', 1)],
        adapters = initial_adapters, heap = []\<rparr>,
     closed = [0, 1], settled_at = 1, outcome = Inl (Error ''postgres down'')\<rparr>"
  by (simp add: closeAll_def promise_all_def closing_of_def)

section \<open>Validation errors of connect\<close>

lemma check_fields_first_missing:
  "missing_fields config required = f # rest \<Longrightarrow>
   check_fields config required = Inl (Error (''Missing required field: '' @ f))"
  by (induction required) (auto simp: missing_fields_def split: if_splits)

lemma required_not_inherited:
  "map_of requiredFields k = Some fs \<Longrightarrow> \<not> inherited_name k"
  by (auto simp: requiredFields_def inherited_name_def split: if_splits)

lemma required_ts_not_inherited:
  "map_of requiredFields_ts k = Some fs \<Longrightarrow> \<not> inherited_name k"
  by (auto simp: requiredFields_ts_def inherited_name_def split: if_splits)

lemma lower_cassandra: "toLowerCase ''cassandra'' = ''cassandra''"
  by (simp add: toLowerCase_def lower_char_def)

text \<open>
  Claim C7, as amended. When the validator's table of required fields has an entry for the
  type (the validator of \<^verbatim>\<open>index.js\<close> lists postgres, mongodb and redis; the one of
  the TypeScript build lists twelve types) and the config (an object) lacks some of the
  fields of that entry, \<^verbatim>\<open>connect\<close> fails, leaves the facade unchanged, and the
  error is a \<^verbatim>\<open>DatabaseError\<close> whose message names exactly one field: the first
  required field, in table order, whose value in the config is absent or falsy. This holds
  of the JavaScript facade with its validator and of the TypeScript facade with its own.
\<close>

theorem connect_reports_first_missing_field:
  assumes "type \<noteq> []" and "truthy config" and "typeof_object config"
    and "missing_fields config required = f # rest"
  shows "(map_of requiredFields (toLowerCase type) = Some required \<longrightarrow>
            connect s type config =
              (s, Inl (DatabaseError (''Connection failed: Missing required field: '' @ f)))) \<and>
         (map_of requiredFields_ts (toLowerCase type) = Some required \<longrightarrow>
            connect_ts s type config =
              (s, Inl (DatabaseError (''Connection failed: Missing required field: '' @ f))))"
proof (intro conjI impI)
  assume t: "map_of requiredFields (toLowerCase type) = Some required"
  with assms check_fields_first_missing[OF assms(4)] required_not_inherited[OF t]
  show "connect s type config =
          (s, Inl (DatabaseError (''Connection failed: Missing required field: '' @ f)))"
    by (simp add: connect_def connect_with_def validate_def validate_with_def truthy_def)
next
  assume t: "map_of requiredFields_ts (toLowerCase type) = Some required"
  with assms check_fields_first_missing[OF assms(4)] required_ts_not_inherited[OF t]
  show "connect_ts s type config =
          (s, Inl (DatabaseError (''Connection failed: Missing required field: '' @ f)))"
    by (simp add: connect_ts_def connect_with_def validate_ts_def validate_with_def truthy_def)
qed

theorem connect_reports_first_missing_field_witness:
  "missing_fields (Obj [(''password'', Str ''x'')]) [''host'', ''port''] = [''host'', ''port''] \<and>
   connect initial_orm ''redis'' (Obj [(''password'', Str ''x'')]) =
     (initial_orm, Inl (DatabaseError ''Connection failed: Missing required field: host'')) \<and>
   missing_fields (Obj [(''keyspace'', Str ''k'')])
       [''contactPoints'', ''localDataCenter'', ''keyspace''] =
     [''contactPoints'', ''localDataCenter''] \<and>
   connect_ts initial_orm ''cassandra'' (Obj [(''keyspace'', Str ''k'')]) =
     (initial_orm,
      Inl (DatabaseError ''Connection failed: Missing required field: contactPoints''))"
proof -
  have m1: "missing_fields (Obj [(''password'', Str ''x'')]) [''host'', ''port''] =
      [''host'', ''port'']"
    by (simp add: missing_fields_def)
  have m2: "missing_fields (Obj [(''keyspace'', Str ''k'')])
       [''contactPoints'', ''localDataCenter'', ''keyspace''] =
     [''contactPoints'', ''localDataCenter'']"
    by (simp add: missing_fields_def)
  have t1: "map_of requiredFields (toLowerCase ''redis'') = Some [''host'', ''port'']"
    by (simp add: lower_redis requiredFields_def)
  have t2: "map_of requiredFields_ts (toLowerCase ''cassandra'') =
      Some [''contactPoints'', ''localDataCenter'', ''keyspace'']"
    by (simp add: lower_cassandra requiredFields_ts_def)
  have c1: "connect initial_orm ''redis'' (Obj [(''password'', Str ''x'')]) =
     (initial_orm, Inl (DatabaseError (''Connection failed: Missing required field: '' @ ''host'')))"
    using connect_reports_first_missing_field
      [where type = "''redis''" and config = "Obj [(''password'', Str ''x'')]"
         and required = "[''host'', ''port'']" and f = "''host''" and rest = "[''port'']"
         and s = initial_orm] m1 t1
    by (simp add: truthy_def)
  have c2: "connect_ts initial_orm ''cassandra'' (Obj [(''keyspace'', Str ''k'')]) =
     (initial_orm,
      Inl (DatabaseError (''Connection failed: Missing required field: '' @ ''contactPoints'')))"
    using connect_reports_first_missing_field
      [where type = "''cassandra''" and config = "Obj [(''keyspace'', Str ''k'')]"
         and required = "[''contactPoints'', ''localDataCenter'', ''keyspace'']"
         and f = "''contactPoints''" and rest = "[''localDataCenter'']" and s = initial_orm]
      m2 t2
    by (simp add: truthy_def)
  from m1 m2 c1 c2 show ?thesis by simp
qed

text \<open>
  The claim as stated fails, for either facade: a redis config with neither host nor port
  misses two fields, and the message of the error names host and not port.
\<close>

theorem connect_error_omits_missing_port:
  "missing_fields (Obj []) [''host'', ''port''] = [''host'', ''port''] \<and>
   connect initial_orm ''redis'' (Obj []) =
     (initial_orm, Inl (DatabaseError ''Connection failed: Missing required field: host'')) \<and>
   connect_ts initial_orm ''redis'' (Obj []) =
     (initial_orm, Inl (DatabaseError ''Connection failed: Missing required field: host'')) \<and>
   \<not> sublist ''port'' ''Connection failed: Missing required field: host''"
proof -
  have "missing_fields (Obj []) [''host'', ''port''] = [''host'', ''port'']"
    by (simp add: missing_fields_def)
  moreover have "connect initial_orm ''redis'' (Obj []) =
     (initial_orm, Inl (DatabaseError ''Connection failed: Missing required field: host''))"
    by (simp add: connect_def connect_with_def validate_def validate_with_def lower_redis
        requiredFields_def inherited_name_def)
  moreover have "connect_ts initial_orm ''redis'' (Obj []) =
     (initial_orm, Inl (DatabaseError ''Connection failed: Missing required field: host''))"
    by (simp add: connect_ts_def connect_with_def validate_ts_def validate_with_def lower_redis
        requiredFields_ts_def inherited_name_def)
  moreover have "\<not> sublist ''port'' ''Connection failed: Missing required field: host''"
    by code_simp
  ultimately show ?thesis by simp
qed

section \<open>count and exists\<close>

text \<open>
  Claim C8. For every adapter, model and predicate, \<^verbatim>\<open>exists\<close> returns true exactly
  when \<^verbatim>\<open>count\<close> returns a number greater than 0. It returns false exactly when
  \<^verbatim>\<open>count\<close> returns a number that is not, and it throws exactly when \<^verbatim>\<open>count\<close>
  throws (as every adapter that leaves both methods unimplemented does).
\<close>

theorem exists_iff_count_positive:
  "(exists a model query = Inr True) = (\<exists>n. count a model query = Inr n \<and> 0 < n) \<and>
   (exists a model query = Inr False) = (\<exists>n. count a model query = Inr n \<and> n \<le> 0) \<and>
   ((\<exists>e. exists a model query = Inl e) = (\<exists>e. count a model query = Inl e))"
  by (cases a) (auto simp: MongoAdapter_exists_def split: sum.splits)

theorem exists_iff_count_positive_witness:
  "exists (MongoTS \<lparr>models = [''users''], countDocuments = \<lambda>m f. Inr 3\<rparr>) ''users''
      [(''age'', Obj [(''$gt'', Num 18)])] = Inr True \<and>
   exists (MongoTS \<lparr>models = [''users''], countDocuments = \<lambda>m f. Inr 0\<rparr>) ''users''
      [(''age'', Obj [(''$gt'', Num 18)])] = Inr False"
proof -
  have p: "processQueryOperators_ts [(''age'', Obj [(''$gt'', Num 18)])] = Inr [(''age'', Obj [(''$gt'', Num 18)])]"
    by (simp add: processQueryOperators_ts_def convert_field_def operatorMap_lookup_def operatorMap_def)
  have "count (MongoTS \<lparr>models = [''users''], countDocuments = \<lambda>m f. Inr 3\<rparr>) ''users''
      [(''age'', Obj [(''$gt'', Num 18)])] = Inr 3"
   "count (MongoTS \<lparr>models = [''users''], countDocuments = \<lambda>m f. Inr 0\<rparr>) ''users''
      [(''age'', Obj [(''$gt'', Num 18)])] = Inr 0"
    by (simp_all add: MongoAdapter_count_def getModel_def p)
  with exists_iff_count_positive[of "MongoTS \<lparr>models = [''users''], countDocuments = \<lambda>m f. Inr 3\<rparr>" "''users''" "[(''age'', Obj [(''$gt'', Num 18)])]"]
   exists_iff_count_positive[of "MongoTS \<lparr>models = [''users''], countDocuments = \<lambda>m f. Inr 0\<rparr>" "''users''" "[(''age'', Obj [(''$gt'', Num 18)])]"]
  show ?thesis by simp
qed

section \<open>Registering adapters\<close>

lemma addAdapter_ok:
  "addAdapter reg type (Class C) = Inr reg' \<longleftrightarrow> type \<noteq> [] \<and> reg' = reg(toLowerCase type \<mapsto> C)"
  by (auto simp: addAdapter_def)

text \<open>
  Claim C9, as amended. \<^verbatim>\<open>addAdapter(type, Ctor)\<close> with a non-empty type name
  succeeds whether or not the name is registered already, and afterwards the registry maps
  the lower-cased name to Ctor. After it,
  \<^verbatim>\<open>createDatabase\<close> with a type name that lower-cases to the same string builds an
  instance of Ctor from the config; \<^verbatim>\<open>connect\<close> does so when the config passes
  validation and the cache has no entry for the computed key.
\<close>

theorem addAdapter_then_createDatabase:
  "(type \<noteq> [] \<longrightarrow>
      (\<exists>reg'. addAdapter reg type (Class C) = Inr reg' \<and> reg' (toLowerCase type) = Some C)) \<and>
   (addAdapter reg type (Class C) = Inr reg' \<and> toLowerCase type' = toLowerCase type \<longrightarrow>
      createDatabase reg' h type' config = (h @ [(C, config)], Inr (length h))) \<and>
   (addAdapter (adapters s) type (Class C) = Inr reg' \<and> toLowerCase type' = toLowerCase type \<and>
    validate type' config = Inr () \<and>
    map_of (connections s) (connectionKey type' config) = None \<longrightarrow>
      connect (s\<lparr>adapters := reg'\<rparr>) type' config =
        (s\<lparr>adapters := reg',
           connections := connections s @ [(connectionKey type' config, length (heap s))],
           heap := heap s @ [(C, config)]\<rparr>, Inr (length (heap s))))"
  by (auto simp: addAdapter_ok createDatabase_cases connect_def connect_with_def)

lemma lower_custom: "toLowerCase ''custom'' = ''custom''" "toLowerCase ''CUSTOM'' = ''custom''"
   "toLowerCase ''Custom'' = ''custom''"
  by (simp_all add: toLowerCase_def lower_char_def)

theorem addAdapter_then_createDatabase_witness:
  "addAdapter initial_adapters ''Custom'' (Class (Custom 1)) =
     Inr (initial_adapters(''custom'' \<mapsto> Custom 1)) \<and>
   createDatabase (initial_adapters(''custom'' \<mapsto> Custom 1)) [] ''CUSTOM'' (Obj []) =
     ([(Custom 1, Obj [])], Inr 0) \<and>
   addAdapter initial_adapters ''POSTGRES'' (Class (Custom 2)) =
     Inr (initial_adapters(''postgres'' \<mapsto> Custom 2)) \<and>
   createDatabase (initial_adapters(''postgres'' \<mapsto> Custom 2)) [] ''postgres'' (Obj []) =
     ([(Custom 2, Obj [])], Inr 0) \<and>
   connect (initial_orm\<lparr>adapters := initial_adapters(''custom'' \<mapsto> Custom 1)\<rparr>) ''CUSTOM'' (Obj []) =
     (initial_orm\<lparr>adapters := initial_adapters(''custom'' \<mapsto> Custom 1),
        connections := [(''CUSTOM-undefined'', 0)], heap := [(Custom 1, Obj [])]\<rparr>, Inr 0)"
proof -
  have a1: "addAdapter initial_adapters ''Custom'' (Class (Custom 1)) =
     Inr (initial_adapters(''custom'' \<mapsto> Custom 1))"
    by (simp add: addAdapter_def lower_custom)
  have a2: "addAdapter initial_adapters ''POSTGRES'' (Class (Custom 2)) =
     Inr (initial_adapters(''postgres'' \<mapsto> Custom 2))"
    by (simp add: addAdapter_def toLowerCase_def lower_char_def)
  have v: "validate ''CUSTOM'' (Obj []) = Inr ()"
    by (simp add: validate_def validate_with_def lower_custom inherited_name_def requiredFields_def)
  have k: "connectionKey ''CUSTOM'' (Obj []) = ''CUSTOM-undefined''"
    by (simp add: connectionKey_def)
  have l2: "toLowerCase ''postgres'' = toLowerCase ''POSTGRES''"
    by (simp add: toLowerCase_def lower_char_def)
  note t = addAdapter_then_createDatabase
  from t[of "''Custom''" initial_adapters "Custom 1" "initial_adapters(''custom'' \<mapsto> Custom 1)" "''CUSTOM''" "[]" "Obj []" initial_orm]
    t[of "''POSTGRES''" initial_adapters "Custom 2" "initial_adapters(''postgres'' \<mapsto> Custom 2)" "''postgres''" "[]" "Obj []" initial_orm]
    a1 a2 v k l2
  show ?thesis
    by (simp add: lower_custom initial_orm_def)
qed

text \<open>
  The claim as stated fails for \<^verbatim>\<open>connect\<close>: once a connection is cached, replacing
  the class registered for its type does not change what \<^verbatim>\<open>connect\<close> returns. The
  second call returns the cached instance, which is of the class registered before, and
  builds nothing.
\<close>

theorem connect_returns_instance_of_replaced_class:
  "addAdapter initial_adapters ''custom'' (Class (Custom 1)) =
     Inr (initial_adapters(''custom'' \<mapsto> Custom 1)) \<and>
   connect \<lparr>connections = [], adapters = initial_adapters(''custom'' \<mapsto> Custom 1), heap = []\<rparr>
       ''custom'' (Obj [(''database'', Str ''x'')]) =
     (\<lparr>connections = [(''custom-x'', 0)], adapters = initial_adapters(''custom'' \<mapsto> Custom 1),
       heap = [(Custom 1, Obj [(''database'', Str ''x'')])]\<rparr>, Inr 0) \<and>
   addAdapter (initial_adapters(''custom'' \<mapsto> Custom 1)) ''custom'' (Class (Custom 2)) =
     Inr (initial_adapters(''custom'' \<mapsto> Custom 2)) \<and>
   connect \<lparr>connections = [(''custom-x'', 0)], adapters = initial_adapters(''custom'' \<mapsto> Custom 2),
       heap = [(Custom 1, Obj [(''database'', Str ''x'')])]\<rparr>
       ''custom'' (Obj [(''database'', Str ''x'')]) =
     (\<lparr>connections = [(''custom-x'', 0)], adapters = initial_adapters(''custom'' \<mapsto> Custom 2),
       heap = [(Custom 1, Obj [(''database'', Str ''x'')])]\<rparr>, Inr 0) \<and>
   fst ([(Custom 1, Obj [(''database'', Str ''x'')])] ! 0) \<noteq> Custom 2"
  by (simp add: addAdapter_def lower_custom connect_def connect_with_def validate_def validate_with_def
      inherited_name_def requiredFields_def connectionKey_def createDatabase_cases)

section \<open>Redis values\<close>

lemma set_args_default: "set_args J key v Undefined = Inr [Str key, serialize J v]"
  by (simp add: set_args_def truthy_def)

text \<open>
  Claim C10. Take a client whose \<^verbatim>\<open>GET\<close> after a plain \<^verbatim>\<open>SET key value\<close>
  replies with that value. After a \<^verbatim>\<open>create(key, v)\<close> that returned, \<^verbatim>\<open>get(key)\<close>
  returns: for a string \<open>v\<close>, the value \<^verbatim>\<open>JSON.parse(v)\<close> when \<open>v\<close> parses and the
  string \<open>v\<close> itself when it does not; for any other \<open>v\<close> with a JSON text, the value
  parsed back from that text. When the server has no value for a key, \<^verbatim>\<open>get\<close>
  returns null.
\<close>

theorem redis_create_then_get:
  assumes "\<forall>k v st st' r. set_reply D [Str k, Str v] st = Inr (st', r) \<longrightarrow>
             get_reply D k st' = Inr (Some v)"
  shows "(RedisAdapter_create J D client key (Str s) Undefined = (client', Inr r) \<longrightarrow>
            RedisAdapter_get J D client' key =
              Inr (case JSON_parse J s of Some j \<Rightarrow> j | None \<Rightarrow> Str s)) \<and>
         (RedisAdapter_create J D client key v Undefined = (client', Inr r) \<and>
          (\<forall>s. v \<noteq> Str s) \<and> JSON_stringify J v = Some t \<and> JSON_parse J t = Some j \<longrightarrow>
            RedisAdapter_get J D client' key = Inr j) \<and>
         (client = Some st \<and> get_reply D key st = Inr None \<longrightarrow>
            RedisAdapter_get J D client key = Inr Null)"
proof (intro conjI impI)
  assume c: "RedisAdapter_create J D client key (Str s) Undefined = (client', Inr r)"
  then obtain st st' where "client = Some st" "client' = Some st'"
    "set_reply D [Str key, Str s] st = Inr (st', r)"
    by (auto simp: RedisAdapter_create_def set_args_default serialize_def
        split: option.splits sum.splits)
  with assms have "get_reply D key st' = Inr (Some s)" by blast
  with \<open>client' = Some st'\<close>
  show "RedisAdapter_get J D client' key = Inr (case JSON_parse J s of Some j \<Rightarrow> j | None \<Rightarrow> Str s)"
    by (simp add: RedisAdapter_get_def deserialize_def)
next
  assume a: "RedisAdapter_create J D client key v Undefined = (client', Inr r) \<and>
          (\<forall>s. v \<noteq> Str s) \<and> JSON_stringify J v = Some t \<and> JSON_parse J t = Some j"
  then have ser: "serialize J v = Str t"
    by (cases v) (auto simp: serialize_def)
  with a obtain st st' where "client = Some st" "client' = Some st'"
    "set_reply D [Str key, Str t] st = Inr (st', r)"
    by (auto simp: RedisAdapter_create_def set_args_default
        split: option.splits sum.splits)
  with assms have "get_reply D key st' = Inr (Some t)" by blast
  with \<open>client' = Some st'\<close> a
  show "RedisAdapter_get J D client' key = Inr j"
    by (simp add: RedisAdapter_get_def deserialize_def)
next
  assume "client = Some st \<and> get_reply D key st = Inr None"
  then show "RedisAdapter_get J D client key = Inr Null"
    by (simp add: RedisAdapter_get_def deserialize_def)
qed

lemma memory_redis_set_get:
  "\<forall>k v st st' r. set_reply memory_redis [Str k, Str v] st = Inr (st', r) \<longrightarrow>
             get_reply memory_redis k st' = Inr (Some v)"
  by (auto simp: memory_redis_def)

theorem redis_create_then_get_witness:
  "RedisAdapter_create scalar_json memory_redis (Some []) ''session'' (Str ''42'') Undefined =
     (Some [(''session'', ''42'')], Inr (Str ''OK'')) \<and>
   RedisAdapter_get scalar_json memory_redis (Some [(''session'', ''42'')]) ''session'' =
     Inr (Num 42) \<and>
   RedisAdapter_create scalar_json memory_redis (Some []) ''session'' (Str ''abc'') Undefined =
     (Some [(''session'', ''abc'')], Inr (Str ''OK'')) \<and>
   RedisAdapter_get scalar_json memory_redis (Some [(''session'', ''abc'')]) ''session'' =
     Inr (Str ''abc'') \<and>
   RedisAdapter_create scalar_json memory_redis (Some []) ''n'' (Num (- 7)) Undefined =
     (Some [(''n'', ''-7'')], Inr (Str ''OK'')) \<and>
   RedisAdapter_get scalar_json memory_redis (Some [(''n'', ''-7'')]) ''n'' = Inr (Num (- 7)) \<and>
   RedisAdapter_get scalar_json memory_redis (Some []) ''session'' = Inr Null"
proof -
  have p1: "JSON_parse scalar_json ''42'' = Some (Num 42)"
    and p2: "JSON_parse scalar_json ''abc'' = None"
    and p3: "JSON_parse scalar_json ''-7'' = Some (Num (- 7))"
    and s3: "JSON_stringify scalar_json (Num (- 7)) = Some ''-7''"
    by (simp_all add: scalar_json_def) code_simp+
  have c1: "RedisAdapter_create scalar_json memory_redis (Some []) ''session'' (Str ''42'') Undefined =
     (Some [(''session'', ''42'')], Inr (Str ''OK''))"
    and c2: "RedisAdapter_create scalar_json memory_redis (Some []) ''session'' (Str ''abc'') Undefined =
     (Some [(''session'', ''abc'')], Inr (Str ''OK''))"
    by (simp_all add: RedisAdapter_create_def set_args_default serialize_def memory_redis_def)
  have c3: "RedisAdapter_create scalar_json memory_redis (Some []) ''n'' (Num (- 7)) Undefined =
     (Some [(''n'', ''-7'')], Inr (Str ''OK''))"
    by (simp add: RedisAdapter_create_def set_args_default serialize_def memory_redis_def s3)
  have g0: "get_reply memory_redis ''session'' [] = Inr None"
    by (simp add: memory_redis_def)
  note t = redis_create_then_get[OF memory_redis_set_get, where J = scalar_json]
  from t[where client = "Some []" and key = "''session''" and s = "''42''"
           and client' = "Some [(''session'', ''42'')]" and r = "Str ''OK''"] c1 p1
  have g1: "RedisAdapter_get scalar_json memory_redis (Some [(''session'', ''42'')]) ''session'' =
     Inr (Num 42)" by simp
  from t[where client = "Some []" and key = "''session''" and s = "''abc''"
           and client' = "Some [(''session'', ''abc'')]" and r = "Str ''OK''"] c2 p2
  have g2: "RedisAdapter_get scalar_json memory_redis (Some [(''session'', ''abc'')]) ''session'' =
     Inr (Str ''abc'')" by simp
  from t[where client = "Some []" and key = "''n''" and v = "Num (- 7)" and t = "''-7''"
           and j = "Num (- 7)" and client' = "Some [(''n'', ''-7'')]" and r = "Str ''OK''"]
    c3 p3 s3
  have g3: "RedisAdapter_get scalar_json memory_redis (Some [(''n'', ''-7'')]) ''n'' =
     Inr (Num (- 7))" by simp
  from t[where client = "Some []" and key = "''session''" and st = "[]"] g0
  have g4: "RedisAdapter_get scalar_json memory_redis (Some []) ''session'' = Inr Null" by simp
  from c1 c2 c3 g1 g2 g3 g4 show ?thesis by simp
qed

end
